theory Spec2Isabelle
  imports Complex_Main
begin

section \<open>Kinetic model of the S0/S1/T1 populations (kinetic\_model.ipynb)\<close>

text \<open>
  The notebook builds a 3x3 matrix of rate constants for each dye, integrates
  \<open>dP/dt = K P\<close> with SciPy's \<open>odeint\<close> and saves one plot per dye.

  Numbers: the notebook computes with NumPy's \<open>float64\<close>. The functions that only add,
  negate and multiply are embedded over any type with \<open>0\<close>, \<open>+\<close>, \<open>-\<close> and \<open>*\<close>, with
  the operations in the order the source writes them. They are used at two types:
  \<open>float64\<close>, the arithmetic the code runs in (round to nearest, ties to even, 53
  significant bits), and \<open>real\<close>, the exact arithmetic the notebook's equations are
  written in.

  Arrays: a one-dimensional array is a list, a two-dimensional array the list of its rows.
\<close>

subsection \<open>Errors and Python sequence access\<close>

datatype error =
  IndexError | ValueError | ZeroDivisionError | IntegrationError | RuntimeError | OSError

definition bind :: "error + 'a \<Rightarrow> ('a \<Rightarrow> error + 'b) \<Rightarrow> error + 'b" where
  "bind m f = (case m of Inl e \<Rightarrow> Inl e | Inr x \<Rightarrow> f x)"

text \<open>\<open>xs[i]\<close> on a tuple or a one-dimensional array: a negative index counts from the
  end, an index outside the sequence raises \<open>IndexError\<close>.\<close>

definition getitem :: "'a list \<Rightarrow> int \<Rightarrow> error + 'a" where
  "getitem xs i =
     (if 0 \<le> i \<and> i < int (length xs) then Inr (xs ! nat i)
      else if i < 0 \<and> - int (length xs) \<le> i then Inr (xs ! nat (int (length xs) + i))
      else Inl IndexError)"

subsection \<open>The arithmetic of \<open>float64\<close>\<close>

text \<open>
  A double is a finite number, an infinity or NaN. A finite double is given by the real
  number it stands for; \<open>finite64\<close> below says which reals are doubles, and every
  operation rounds its result to one. The two zeros of IEEE 754 are one value here: they
  compare equal, and the notebook neither divides nor prints a zero.
\<close>

datatype float64 = Finite real | PInf | NInf | NaN

text \<open>Round to the nearest integer, a tie to the even one.\<close>

definition rne :: "real \<Rightarrow> int" where
  "rne q =
     (let f = \<lfloor>q\<rfloor>; d = q - of_int f
      in if d < 1 / 2 then f else if 1 / 2 < d then f + 1 else if even f then f else f + 1)"

text \<open>
  The double nearest to a real number: 53 significant bits; below \<open>2^-1022\<close> the
  spacing stays \<open>2^-1074\<close> (subnormal numbers); a result of magnitude \<open>2^1024\<close> or
  more overflows to an infinity.
\<close>

definition round64 :: "real \<Rightarrow> float64" where
  "round64 x =
     (if x = 0 then Finite 0
      else let e = max \<lfloor>log 2 \<bar>x\<bar>\<rfloor> (- 1022) - 52;
               r = of_int (rne (x / 2 powi e)) * 2 powi e
           in if 2 ^ 1024 \<le> \<bar>r\<bar> then (if 0 < x then PInf else NInf) else Finite r)"

text \<open>Addition, negation and multiplication of IEEE 754, each one rounding.\<close>

fun fadd :: "float64 \<Rightarrow> float64 \<Rightarrow> float64" where
  "fadd NaN b = NaN"
| "fadd a NaN = NaN"
| "fadd PInf NInf = NaN"
| "fadd NInf PInf = NaN"
| "fadd PInf b = PInf"
| "fadd a PInf = PInf"
| "fadd NInf b = NInf"
| "fadd a NInf = NInf"
| "fadd (Finite x) (Finite y) = round64 (x + y)"

fun fneg :: "float64 \<Rightarrow> float64" where
  "fneg (Finite x) = Finite (- x)"
| "fneg PInf = NInf"
| "fneg NInf = PInf"
| "fneg NaN = NaN"

fun fsign :: "float64 \<Rightarrow> real" where
  "fsign (Finite x) = sgn x"
| "fsign PInf = 1"
| "fsign NInf = - 1"
| "fsign NaN = 0"

fun fmul :: "float64 \<Rightarrow> float64 \<Rightarrow> float64" where
  "fmul NaN b = NaN"
| "fmul a NaN = NaN"
| "fmul (Finite x) (Finite y) = round64 (x * y)"
| "fmul a b =
     (if fsign a * fsign b = 0 then NaN else if 0 < fsign a * fsign b then PInf else NInf)"

instantiation float64 :: "{zero, plus, uminus, times}"
begin

definition zero_float64 :: float64 where
  "zero_float64 = Finite 0"

definition plus_float64 :: "float64 \<Rightarrow> float64 \<Rightarrow> float64" where
  "plus_float64 = fadd"

definition uminus_float64 :: "float64 \<Rightarrow> float64" where
  "uminus_float64 = fneg"

definition times_float64 :: "float64 \<Rightarrow> float64 \<Rightarrow> float64" where
  "times_float64 = fmul"

instance ..

end

text \<open>The values of the datatype that are finite doubles: those rounding leaves alone.\<close>

definition finite64 :: "float64 \<Rightarrow> bool" where
  "finite64 v = (case v of Finite x \<Rightarrow> round64 x = Finite x | _ \<Rightarrow> False)"

subsection \<open>NumPy arrays\<close>

text \<open>\<open>np.zeros(n)\<close> and \<open>np.zeros((r, c))\<close>.\<close>

definition zeros :: "nat \<Rightarrow> ('a::zero) list" where
  "zeros n = replicate n 0"

definition zeros2 :: "nat \<Rightarrow> nat \<Rightarrow> ('a::zero) list list" where
  "zeros2 r c = replicate r (replicate c 0)"

text \<open>\<open>A[i] = v\<close> and \<open>A[i, j] = v\<close> with non-negative indices; outside the array NumPy
  raises \<open>IndexError\<close>.\<close>

definition setitem :: "'a list \<Rightarrow> nat \<Rightarrow> 'a \<Rightarrow> error + 'a list" where
  "setitem A i v = (if i < length A then Inr (A[i := v]) else Inl IndexError)"

definition setitem2 :: "'a list list \<Rightarrow> nat \<Rightarrow> nat \<Rightarrow> 'a \<Rightarrow> error + 'a list list" where
  "setitem2 A i j v =
     (if i < length A \<and> j < length (A ! i) then Inr (A[i := (A ! i)[j := v]])
      else Inl IndexError)"

text \<open>\<open>np.dot(K, P)\<close> for a two-dimensional \<open>K\<close> and a one-dimensional \<open>P\<close>: the sum of
  products over each row of \<open>K\<close>; \<open>ValueError\<close> when the rows do not have the length of
  \<open>P\<close>. NumPy leaves the order of the additions to its BLAS library; here the sum is
  taken from the right, which matters in \<open>float64\<close> only when a row has three products
  that are not zero.\<close>

definition dot_row :: "('a::{zero,plus,times}) list \<Rightarrow> 'a list \<Rightarrow> 'a" where
  "dot_row row P = foldr (+) (map2 (*) row P) 0"

definition dot :: "('a::{zero,plus,times}) list list \<Rightarrow> 'a list \<Rightarrow> error + 'a list" where
  "dot K P =
     (if list_all (\<lambda>row. length row = length P) K then Inr (map (\<lambda>row. dot_row row P) K)
      else Inl ValueError)"

subsection \<open>The rate matrix and the derivative\<close>

text \<open>
  \<^verbatim>\<open>
  def make_K_matrix(*rates):
      K = np.zeros((3,3))
      K[0,1] = rates[0] + rates[-1] # (k_em + k_nr)
      K[1,1] = -(rates[0] + rates[1] + rates[-1]) # -(k_em + k_ISC + k_nr)
      K[1,2] = rates[2] # k_rISC
      K[2,1] = rates[1] # k_ISC
      K[2,2] = -rates[2] # -k_rISC
      return K
  \<close>
  \<open>rates\<close> is the tuple of the positional arguments, so a call with fewer than three
  rates raises \<open>IndexError\<close>.
\<close>

definition make_K_matrix :: "('a::{zero,plus,uminus}) list \<Rightarrow> error + 'a list list" where
  "make_K_matrix rates =
     bind (Inr (zeros2 3 3)) (\<lambda>K.
     bind (getitem rates 0) (\<lambda>a. bind (getitem rates (- 1)) (\<lambda>d.
     bind (setitem2 K 0 1 (a + d)) (\<lambda>K.
     bind (getitem rates 0) (\<lambda>a. bind (getitem rates 1) (\<lambda>b. bind (getitem rates (- 1)) (\<lambda>d.
     bind (setitem2 K 1 1 (- (a + b + d))) (\<lambda>K.
     bind (getitem rates 2) (\<lambda>c.
     bind (setitem2 K 1 2 c) (\<lambda>K.
     bind (getitem rates 1) (\<lambda>b.
     bind (setitem2 K 2 1 b) (\<lambda>K.
     bind (getitem rates 2) (\<lambda>c.
     bind (setitem2 K 2 2 (- c)) (\<lambda>K.
     Inr K))))))))))))))"

text \<open>
  \<^verbatim>\<open>
  def dPdt(P, t, K):
      return np.dot(K, P)
  \<close>
\<close>

definition dPdt :: "('a::{zero,plus,times}) list \<Rightarrow> 't \<Rightarrow> 'a list list \<Rightarrow> error + 'a list" where
  "dPdt P t K = dot K P"

subsection \<open>The time window and the initial populations\<close>

text \<open>
  \<open>np.arange(start, stop, step)\<close>: \<open>ceil((stop - start) / step)\<close> values
  \<open>start + i * step\<close>, none when that number is not positive; a zero step raises
  \<open>ZeroDivisionError\<close>.
\<close>

definition arange :: "real \<Rightarrow> real \<Rightarrow> real \<Rightarrow> error + real list" where
  "arange start stop step =
     (if step = 0 then Inl ZeroDivisionError
      else Inr (map (\<lambda>i. start + real i * step) [0..<nat \<lceil>(stop - start) / step\<rceil>]))"

text \<open>
  A figure as \<open>plot_pops\<close> draws it: the title, the time axis and the three curves. The
  state of a run: the notebook's global variables \<open>P0\<close> and \<open>t\<close> (here \<open>t_grid\<close>), and
  the files written so far, each with the figure it holds, in the order written.
\<close>

record plot =
  title :: string
  xdata :: "real list"
  curves :: "real list list"

record notebook =
  P0 :: "real list"
  t_grid :: "real list"
  saved :: "(string \<times> plot) list"

text \<open>
  \<^verbatim>\<open>
  t = np.arange(0, 1e-2, 1e-10)
  P0 = np.zeros(3)
  P0[1] = 0.25
  P0[2] = 0.75
  \<close>
\<close>

definition init_notebook :: "error + notebook" where
  "init_notebook =
     bind (arange 0 (1 / 10 ^ 2) (1 / 10 ^ 10)) (\<lambda>t.
     bind (Inr (zeros 3)) (\<lambda>p.
     bind (setitem p 1 (25 / 100)) (\<lambda>p.
     bind (setitem p 2 (75 / 100)) (\<lambda>p.
     Inr \<lparr>P0 = p, t_grid = t, saved = []\<rparr>))))"

subsection \<open>The integrator\<close>

text \<open>
  \<open>odeint(func, y0, t, args=(K,))\<close> is SciPy's: to the model it is a parameter, a
  function that returns the array of the samples or fails. It works on copies of \<open>y0\<close>
  and \<open>t\<close>, so a call writes to neither.

  What it approximates is the solution of the initial value problem
  \<open>dy/dt = func(y, t, K)\<close>, \<open>y(t[0]) = y0\<close>: a function \<open>y\<close> on the interval \<open>[a, b]\<close> of
  the time window whose derivative at every time is what \<open>func\<close> returns there.
\<close>

type_synonym solver =
  "(real list \<Rightarrow> real \<Rightarrow> real list list \<Rightarrow> error + real list) \<Rightarrow>
     real list \<Rightarrow> real list \<Rightarrow> real list list \<Rightarrow> error + real list list"

text \<open>
  The second thing the notebook does not decide is whether Matplotlib manages to render a
  figure and to write it: with \<open>usetex\<close> the title goes through LaTeX, the directory of
  the path must exist, and the library must have a writer for the format. The model takes
  both as its environment; \<open>savefig_raises\<close> is given the path, the format and the figure
  and says which exception, if any, the call ends in.
\<close>

record libraries =
  odeint :: solver
  savefig_raises :: "string \<Rightarrow> string \<Rightarrow> plot \<Rightarrow> error option"

definition ivp_solution ::
  "(real list \<Rightarrow> real \<Rightarrow> error + real list) \<Rightarrow> real list \<Rightarrow> real \<Rightarrow> real \<Rightarrow>
     (real \<Rightarrow> real list) \<Rightarrow> bool" where
  "ivp_solution f y0 a b y \<longleftrightarrow>
     y a = y0 \<and>
     (\<forall>s. a \<le> s \<and> s \<le> b \<longrightarrow>
        (\<exists>d. f (y s) s = Inr d \<and> length (y s) = length d \<and>
           (\<forall>i < length d.
              ((\<lambda>u. y u ! i) has_real_derivative d ! i) (at s within {a..b}))))"

subsection \<open>Plotting\<close>

text \<open>\<open>s.replace(old, new)\<close>: every occurrence of \<open>old\<close>, found from left to right
  without overlap, becomes \<open>new\<close>; an empty \<open>old\<close> matches before every character and at
  the end.\<close>

fun replace_from :: "string \<Rightarrow> string \<Rightarrow> nat \<Rightarrow> string \<Rightarrow> string" where
  "replace_from old new skip [] = []"
| "replace_from old new skip (c # cs) =
     (if 0 < skip then replace_from old new (skip - 1) cs
      else if take (length old) (c # cs) = old
      then new @ replace_from old new (length old - 1) cs
      else c # replace_from old new 0 cs)"

definition str_replace :: "string \<Rightarrow> string \<Rightarrow> string \<Rightarrow> string" where
  "str_replace s old new =
     (if old = [] then new @ concat (map (\<lambda>c. c # new) s) else replace_from old new 0 s)"

text \<open>\<open>sol[:, j]\<close>: column \<open>j\<close> of a two-dimensional array, \<open>IndexError\<close> when the rows
  are shorter. (A list of rows does not say how wide an array without rows is: it is taken
  to be wide enough.)\<close>

definition column :: "'a list list \<Rightarrow> nat \<Rightarrow> error + 'a list" where
  "column A j =
     (if list_all (\<lambda>row. j < length row) A then Inr (map (\<lambda>row. row ! j) A)
      else Inl IndexError)"

text \<open>\<open>ax.plot(x, y)\<close> raises \<open>ValueError\<close> unless \<open>x\<close> and \<open>y\<close> have the same
  length.\<close>

definition ax_plot :: "real list \<Rightarrow> real list \<Rightarrow> error + unit" where
  "ax_plot x y = (if length x = length y then Inr () else Inl ValueError)"

text \<open>
  \<open>os.path.basename\<close> and \<open>os.path.splitext\<close> of POSIX: the extension starts at the
  last dot of the last path component, and there is none when only dots come before that
  dot in the component.
\<close>

definition basename :: "string \<Rightarrow> string" where
  "basename p = rev (takeWhile (\<lambda>c. c \<noteq> CHR ''/'') (rev p))"

definition splitext :: "string \<Rightarrow> string \<times> string" where
  "splitext p =
     (let b = basename p;
          e = rev (takeWhile (\<lambda>c. c \<noteq> CHR ''.'') (rev b));
          stem = take (length b - Suc (length e)) b
      in if CHR ''.'' \<in> set b \<and> \<not> list_all (\<lambda>c. c = CHR ''.'') stem
         then (take (length p - Suc (length e)) p, CHR ''.'' # e)
         else (p, []))"

text \<open>\<open>s.rstrip(c)\<close> for a single character \<open>c\<close>.\<close>

definition rstrip :: "string \<Rightarrow> char \<Rightarrow> string" where
  "rstrip s c = rev (dropWhile (\<lambda>x. x = c) (rev s))"

text \<open>
  \<open>plt.savefig(fname)\<close> takes the format from the extension of \<open>fname\<close>. When there
  is none, it takes the default format \<open>png\<close> and writes to \<open>fname.rstrip('.') + '.png'\<close>.
  Rendering and writing are the environment's.
\<close>

definition savefig_path :: "string \<Rightarrow> string \<times> string" where
  "savefig_path fname =
     (let format = drop 1 (snd (splitext fname))
      in if format = [] then (rstrip fname (CHR ''.'') @ ''.png'', ''png'')
         else (fname, format))"

definition savefig ::
  "libraries \<Rightarrow> string \<Rightarrow> plot \<Rightarrow> (string \<times> plot) list \<Rightarrow>
     error + (string \<times> plot) list" where
  "savefig env fname fig files =
     (case savefig_raises env (fst (savefig_path fname)) (snd (savefig_path fname)) fig of
        Some e \<Rightarrow> Inl e
      | None \<Rightarrow> Inr (files @ [(fst (savefig_path fname), fig)]))"

text \<open>
  \<^verbatim>\<open>
  def plot_pops(t, sol, mdl_name):
      ...
      ax.plot(t, sol[:,0], lw=2, color="b", label=r"S$_0$")
      ax.plot(t, sol[:,1], lw=2, color="g", label=r"S$_1$")
      ax.plot(t, sol[:,2], lw=2, color="r", label=r"T$_1$")
      ...
      plt.title("%s" % mdl_name, size=32)
      plt.savefig("%s.svg" % mdl_name.replace(" ", "_"), dpi=600)
      plt.show()
      return
  \<close>
  The styling calls are left out. The function is embedded as its effect on the list of
  written files.
\<close>

definition plot_pops ::
  "libraries \<Rightarrow> real list \<Rightarrow> real list list \<Rightarrow> string \<Rightarrow> (string \<times> plot) list \<Rightarrow>
     error + (string \<times> plot) list" where
  "plot_pops env t sol mdl_name files =
     bind (column sol 0) (\<lambda>s0. bind (ax_plot t s0) (\<lambda>_.
     bind (column sol 1) (\<lambda>s1. bind (ax_plot t s1) (\<lambda>_.
     bind (column sol 2) (\<lambda>s2. bind (ax_plot t s2) (\<lambda>_.
     savefig env (str_replace mdl_name '' '' ''_'' @ ''.svg'')
       \<lparr>title = mdl_name, xdata = t, curves = [s0, s1, s2]\<rparr> files))))))"

subsection \<open>The loop over the models\<close>

text \<open>
  \<^verbatim>\<open>
  df = pd.read_csv("rate_constants.csv")
  mdls = df["Dye"]
  rates = df[["k_em / Hz", "k_ISC / Hz", "k_rISC / Hz", "k_nr / Hz"]]
  \<close>
  A row of the table is the name of the dye, a string, and its four rate constants.
  Reading the file is outside the model.
\<close>

type_synonym dataframe = "(string \<times> real \<times> real \<times> real \<times> real) list"

definition mdls :: "dataframe \<Rightarrow> string list" where
  "mdls df = map fst df"

definition rates :: "dataframe \<Rightarrow> real list list" where
  "rates df = map (\<lambda>(dye, k_em, k_ISC, k_rISC, k_nr). [k_em, k_ISC, k_rISC, k_nr]) df"

text \<open>
  \<^verbatim>\<open>
  for i, mdl in enumerate(mdls.values):
      mdl_name = mdl
      ks = rates.values[i] # * 1e-12
      K = make_K_matrix(*ks)
      sol = odeint(dPdt, P0, t, args=(K,))
      plot_pops(t, sol, mdl_name)
  \<close>
  An exception ends the run: the result is the error, if any, and the state reached.
\<close>

definition iteration ::
  "libraries \<Rightarrow> real list list \<Rightarrow> nat \<times> string \<Rightarrow> notebook \<Rightarrow>
     error option \<times> notebook" where
  "iteration env rs im nb =
     (let mdl_name = snd im in
      case getitem rs (int (fst im)) of Inl e \<Rightarrow> (Some e, nb) | Inr ks \<Rightarrow>
      case make_K_matrix ks of Inl e \<Rightarrow> (Some e, nb) | Inr K \<Rightarrow>
      case odeint env dPdt (P0 nb) (t_grid nb) K of Inl e \<Rightarrow> (Some e, nb) | Inr sol \<Rightarrow>
      case plot_pops env (t_grid nb) sol mdl_name (saved nb) of Inl e \<Rightarrow> (Some e, nb)
      | Inr files \<Rightarrow> (None, nb\<lparr>saved := files\<rparr>))"

fun loop ::
  "libraries \<Rightarrow> real list list \<Rightarrow> (nat \<times> string) list \<Rightarrow> notebook \<Rightarrow>
     error option \<times> notebook" where
  "loop env rs [] nb = (None, nb)"
| "loop env rs (im # ims) nb =
     (case iteration env rs im nb of
        (Some e, nb') \<Rightarrow> (Some e, nb')
      | (None, nb') \<Rightarrow> loop env rs ims nb')"

definition run_models :: "libraries \<Rightarrow> dataframe \<Rightarrow> notebook \<Rightarrow> error option \<times> notebook" where
  "run_models env df nb = loop env (rates df) (enumerate 0 (mdls df)) nb"

definition run_notebook :: "libraries \<Rightarrow> dataframe \<Rightarrow> error + error option \<times> notebook" where
  "run_notebook env df = bind init_notebook (\<lambda>nb. Inr (run_models env df nb))"

section \<open>Properties\<close>

subsection \<open>The rate matrix and the derivative, evaluated\<close>

lemma make_K_matrix_four:
  "make_K_matrix [k_em, k_ISC, k_rISC, k_nr] =
     Inr [[0, k_em + k_nr, 0],
          [0, - (k_em + k_ISC + k_nr), k_rISC],
          [0, k_ISC, - k_rISC]]"
  by (simp add: make_K_matrix_def bind_def getitem_def setitem2_def zeros2_def
      numeral_3_eq_3)

lemma dPdt_three:
  fixes pG :: real
  shows "dPdt [pG, pS, pT] t [[a0, a1, a2], [b0, b1, b2], [c0, c1, c2]] =
     Inr [a0 * pG + a1 * pS + a2 * pT, b0 * pG + b1 * pS + b2 * pT, c0 * pG + c1 * pS + c2 * pT]"
  by (simp add: dPdt_def dot_def dot_row_def)

lemma dPdt_make_K:
  fixes k_em :: real
  assumes "make_K_matrix [k_em, k_ISC, k_rISC, k_nr] = Inr K"
  shows "dPdt [pG, pS, pT] t K =
     Inr [(k_em + k_nr) * pS, - (k_em + k_ISC + k_nr) * pS + k_rISC * pT, k_ISC * pS - k_rISC * pT]"
  using assms by (simp add: make_K_matrix_four dPdt_three) (auto simp: dPdt_three)

lemma length3: "length xs = 3 \<Longrightarrow> \<exists>a b c. xs = [a, b, c]"
  by (metis length_0_conv length_Suc_conv numeral_3_eq_3)

lemma dPdt_Inr_length:
  fixes K :: "real list list"
  assumes "dPdt P t K = Inr d"
  shows "length d = length K" and "K \<noteq> [] \<Longrightarrow> length P = length (hd K)"
  using assms by (auto simp: dPdt_def dot_def list_all_iff split: if_splits)

lemma sum_list3: "length xs = 3 \<Longrightarrow> sum_list xs = xs ! 0 + xs ! 1 + (xs ! 2 :: real)"
  using length3 [of xs] by auto

lemma nth3_cases:
  fixes i :: nat
  assumes "i < 3"
  obtains "i = 0" | "i = 1" | "i = 2"
  using assms by linarith

subsection \<open>Rounding to \<open>float64\<close>\<close>

lemma floor_log2:
  fixes x :: real
  assumes "2 powi k \<le> x" "x < 2 powi (k + 1)"
  shows "\<lfloor>log 2 x\<rfloor> = k"
proof -
  have p: "(2::real) powr (of_int j) = 2 powi j" for j
    by (simp add: powr_real_of_int power_int_def power_one_over inverse_eq_divide)
  have "0 < (2::real) powi k" by simp
  with assms have "0 < x" by linarith
  then show ?thesis
    using assms p [of k] p [of "k + 1"] by (simp add: floor_log_eq_powr_iff)
qed

lemma rne_of_int [simp]: "rne (of_int m) = m"
  by (simp add: rne_def)

lemma rne_minus: "rne (- q) = - rne q"
proof (cases "q \<in> \<int>")
  case True
  then obtain m where "q = of_int m" by (auto elim: Ints_cases)
  then show ?thesis by (simp flip: of_int_minus)
next
  case False
  then have ne: "q \<noteq> of_int \<lfloor>q\<rfloor>"
    by (metis Ints_of_int)
  then have f: "\<lfloor>- q\<rfloor> = - \<lfloor>q\<rfloor> - 1"
    by (simp add: floor_minus ceiling_altdef)
  from ne have d: "0 < q - of_int \<lfloor>q\<rfloor>" "q - of_int \<lfloor>q\<rfloor> < 1"
    by linarith+
  show ?thesis
    using d by (auto simp: rne_def f Let_def)
qed

lemma round64_zero [simp]: "round64 0 = Finite 0"
  by (simp add: round64_def)

lemma zero_float64 [simp]: "(0::float64) = Finite 0"
  by (simp add: zero_float64_def)

lemma fadd_Finite [simp]: "Finite x + Finite y = round64 (x + y)"
  by (simp add: plus_float64_def)

lemma fmul_Finite [simp]: "Finite x * Finite y = round64 (x * y)"
  by (simp add: times_float64_def)

lemma fneg_Finite [simp]: "- Finite x = Finite (- x)"
  by (simp add: uminus_float64_def)

lemma round64_minus: "round64 (- x) = - round64 x"
  by (auto simp: round64_def Let_def uminus_float64_def rne_minus)

lemma round64_normal:
  assumes "2 powi k \<le> \<bar>x\<bar>" "\<bar>x\<bar> < 2 powi (k + 1)" "- 1022 \<le> k"
  shows "round64 x =
     (let r = of_int (rne (x / 2 powi (k - 52))) * 2 powi (k - 52)
      in if 2 ^ 1024 \<le> \<bar>r\<bar> then (if 0 < x then PInf else NInf) else Finite r)"
proof -
  have "0 < (2::real) powi k" by simp
  with assms(1) have "0 < \<bar>x\<bar>" by linarith
  then have "x \<noteq> 0" by simp
  moreover have "\<lfloor>log 2 \<bar>x\<bar>\<rfloor> = k"
    by (rule floor_log2 [OF assms(1,2)])
  ultimately show ?thesis
    using assms(3) by (simp add: round64_def Let_def)
qed

text \<open>A number with a 53-bit significand and an exponent in range is a double.\<close>

lemma round64_exact:
  assumes x: "x = of_int m * 2 powi e"
    and m: "2 ^ 52 \<le> \<bar>m\<bar>" "\<bar>m\<bar> < 2 ^ 53"
    and e: "- 1074 \<le> e" "e \<le> 971"
  shows "round64 x = Finite x"
proof -
  have pos: "0 < (2::real) powi j" for j by simp
  have ax: "\<bar>x\<bar> = of_int \<bar>m\<bar> * 2 powi e"
    by (simp add: x abs_mult)
  from m have "m \<noteq> 0" by auto
  then have "x \<noteq> 0" by (simp add: x)
  have lo: "2 powi (52 + e) \<le> \<bar>x\<bar>"
  proof -
    have "(2::real) powi (52 + e) = 2 ^ 52 * 2 powi e"
      by (simp add: power_int_add)
    also have "\<dots> \<le> of_int \<bar>m\<bar> * 2 powi e"
      using m(1) by (intro mult_right_mono) (simp_all add: of_int_le_numeral_power_cancel_iff [symmetric] del: of_int_abs)
    finally show ?thesis by (simp add: ax)
  qed
  have hi: "\<bar>x\<bar> < 2 powi (52 + e + 1)"
  proof -
    have "of_int \<bar>m\<bar> * 2 powi e < (2::real) ^ 53 * 2 powi e"
      using m(2) pos [of e] by (intro mult_strict_right_mono) (simp_all del: of_int_abs)
    also have "\<dots> = 2 powi (52 + e + 1)"
      by (simp add: power_int_add)
    finally show ?thesis by (simp add: ax)
  qed
  have fl: "\<lfloor>log 2 \<bar>x\<bar>\<rfloor> = 52 + e"
    by (rule floor_log2 [OF lo hi])
  have ex: "max \<lfloor>log 2 \<bar>x\<bar>\<rfloor> (- 1022) - 52 = e"
    using e by (simp add: fl)
  have q: "x / 2 powi e = of_int m"
    by (simp add: x)
  have "\<bar>x\<bar> < 2 ^ 53 * 2 powi 971"
  proof -
    have "\<bar>x\<bar> < 2 powi (53 + e)" using hi by (simp add: add.commute add.left_commute)
    also have "(2::real) powi (53 + e) \<le> 2 powi (53 + 971)"
      using e by (intro power_int_increasing) simp_all
    finally show ?thesis by (simp add: power_int_add)
  qed
  then have small: "\<not> 2 ^ 1024 \<le> \<bar>x\<bar>"
    by (simp add: power_int_def)
  show ?thesis
    using \<open>x \<noteq> 0\<close> small by (simp add: round64_def ex q Let_def x [symmetric])
qed

lemma round64_tie: "round64 (2 ^ 53 + 1) = Finite (2 ^ 53)"
  using round64_normal [of 53 "2 ^ 53 + 1"]
  by (simp add: rne_def power_int_def)

lemma round64_pow53: "round64 (2 ^ 53) = Finite (2 ^ 53)"
  using round64_exact [of "2 ^ 53" "2 ^ 52" 1] by simp

lemma round64_pow51: "round64 (2 ^ 51) = Finite (2 ^ 51)"
  using round64_exact [of "2 ^ 51" "2 ^ 52" "- 1"] by (simp add: power_int_def power_one_over)

lemma round64_one: "round64 1 = Finite 1"
  using round64_exact [of 1 "2 ^ 52" "- 52"] by (simp add: power_int_def power_one_over)

lemma round64_quarter: "round64 (1 / 4) = Finite (1 / 4)"
  using round64_exact [of "1 / 4" "2 ^ 52" "- 54"] by (simp add: power_int_def power_one_over)

lemma round64_three_quarters: "round64 (3 / 4) = Finite (3 / 4)"
  using round64_exact [of "3 / 4" "3 * 2 ^ 51" "- 53"] by (simp add: power_int_def power_one_over)

lemma finite64_simps:
  "finite64 (Finite 0)" "finite64 (Finite 1)" "finite64 (Finite (2 ^ 53))"
  "finite64 (Finite (1 / 4))" "finite64 (Finite (3 / 4))"
  by (simp_all add: finite64_def round64_one round64_pow53 [simplified] round64_quarter
      round64_three_quarters)

subsection \<open>Functions with a given derivative on an interval\<close>

lemma const_on_interval:
  fixes g :: "real \<Rightarrow> real"
  assumes der: "\<And>u. a \<le> u \<Longrightarrow> u \<le> b \<Longrightarrow> (g has_real_derivative 0) (at u within {a..b})"
    and s: "a \<le> s" "s \<le> b"
  shows "g s = g a"
proof (cases "a < b")
  case True
  have cont: "continuous_on {a..b} g"
    by (rule DERIV_continuous_on [where D = "\<lambda>_. 0"]) (simp add: der)
  have inner: "DERIV g x :> 0" if "a < x" "x < b" for x
    using der [of x] that by (simp add: at_within_Icc_at)
  show ?thesis
    by (rule DERIV_isconst2 [OF True cont inner s])
next
  case False
  with s have "s = a" by linarith
  then show ?thesis by simp
qed

lemma nondecreasing_on_interval:
  fixes g :: "real \<Rightarrow> real"
  assumes der: "\<And>u. a \<le> u \<Longrightarrow> u \<le> b \<Longrightarrow> (g has_real_derivative D u) (at u within {a..b})"
    and nonneg: "\<And>u. a \<le> u \<Longrightarrow> u \<le> b \<Longrightarrow> 0 \<le> D u"
    and s: "a \<le> s" "s \<le> s'" "s' \<le> b"
  shows "g s \<le> g s'"
proof (cases "s < s'")
  case True
  have "continuous_on {a..b} g"
    by (rule DERIV_continuous_on [where D = D]) (simp add: der)
  then have cont: "continuous_on {s..s'} g"
    by (rule continuous_on_subset) (use s in auto)
  have inner: "DERIV g x :> D x" if "s < x" "x < s'" for x
  proof -
    from that s have "a < x" "x < b" by simp_all
    with der [of x] show ?thesis by (simp add: at_within_Icc_at)
  qed
  then have "g differentiable (at x)" if "s < x" "x < s'" for x
    using that real_differentiable_def by blast
  from MVT [OF True cont this] obtain l z where
    z: "s < z" "z < s'" "DERIV g z :> l" "g s' - g s = (s' - s) * l"
    by blast
  from inner [OF z(1,2)] z(3) have "l = D z" by (rule DERIV_unique [symmetric])
  moreover have "0 \<le> D z" using z s by (intro nonneg) simp_all
  ultimately have "0 \<le> (s' - s) * l" using True by simp
  with z(4) show ?thesis by simp
next
  case False
  with s have "s = s'" by simp
  then show ?thesis by simp
qed

subsection \<open>Solutions of the rate equations\<close>

lemma trajectory_components:
  fixes k_em :: real
  assumes K: "make_K_matrix [k_em, k_ISC, k_rISC, k_nr] = Inr K"
    and sol: "ivp_solution (\<lambda>P t. dPdt P t K) y_init a b y"
    and s: "a \<le> s" "s \<le> b"
  shows "length (y s) = 3"
    and "((\<lambda>u. y u ! 0) has_real_derivative (k_em + k_nr) * y s ! 1) (at s within {a..b})"
    and "((\<lambda>u. y u ! 1) has_real_derivative
           - (k_em + k_ISC + k_nr) * y s ! 1 + k_rISC * y s ! 2) (at s within {a..b})"
    and "((\<lambda>u. y u ! 2) has_real_derivative
           k_ISC * y s ! 1 - k_rISC * y s ! 2) (at s within {a..b})"
proof -
  from sol s obtain d where d: "dPdt (y s) s K = Inr d" "length (y s) = length d"
    and der: "\<And>i. i < length d \<Longrightarrow>
      ((\<lambda>u. y u ! i) has_real_derivative d ! i) (at s within {a..b})"
    unfolding ivp_solution_def by blast
  from K have len_K: "length K = 3"
    by (auto simp: make_K_matrix_four)
  with d dPdt_Inr_length(1) [OF d(1)] show len: "length (y s) = 3"
    by simp
  then obtain pG pS pT where ys: "y s = [pG, pS, pT]"
    using length3 by blast
  from d(1) have d_eq: "d = [(k_em + k_nr) * pS,
      - (k_em + k_ISC + k_nr) * pS + k_rISC * pT, k_ISC * pS - k_rISC * pT]"
    unfolding ys dPdt_make_K [OF K] by simp
  from der [of 0] show "((\<lambda>u. y u ! 0) has_real_derivative (k_em + k_nr) * y s ! 1)
      (at s within {a..b})"
    by (simp add: d_eq ys)
  from der [of 1] show "((\<lambda>u. y u ! 1) has_real_derivative
           - (k_em + k_ISC + k_nr) * y s ! 1 + k_rISC * y s ! 2) (at s within {a..b})"
    by (simp add: d_eq ys)
  from der [of 2] show "((\<lambda>u. y u ! 2) has_real_derivative
           k_ISC * y s ! 1 - k_rISC * y s ! 2) (at s within {a..b})"
    by (simp add: d_eq ys)
qed

lemma trajectory_start: "ivp_solution f y_init a b y \<Longrightarrow> y a = y_init"
  by (simp add: ivp_solution_def)

lemma trajectory_sum:
  fixes k_em :: real
  assumes K: "make_K_matrix [k_em, k_ISC, k_rISC, k_nr] = Inr K"
    and sol: "ivp_solution (\<lambda>P t. dPdt P t K) y_init a b y"
    and s: "a \<le> s" "s \<le> b"
  shows "sum_list (y s) = sum_list y_init"
proof -
  let ?g = "\<lambda>u. y u ! 0 + y u ! 1 + y u ! 2"
  have "(?g has_real_derivative 0) (at u within {a..b})" if u: "a \<le> u" "u \<le> b" for u
  proof -
    note c = trajectory_components(2-4) [OF K sol u]
    have "(?g has_real_derivative
        ((k_em + k_nr) * y u ! 1 + (- (k_em + k_ISC + k_nr) * y u ! 1 + k_rISC * y u ! 2)
          + (k_ISC * y u ! 1 - k_rISC * y u ! 2))) (at u within {a..b})"
      by (rule DERIV_add [OF DERIV_add [OF c(1) c(2)] c(3)])
    also have "(k_em + k_nr) * y u ! 1 + (- (k_em + k_ISC + k_nr) * y u ! 1 + k_rISC * y u ! 2)
          + (k_ISC * y u ! 1 - k_rISC * y u ! 2) = 0"
      by (simp add: algebra_simps)
    finally show ?thesis .
  qed
  then have "?g s = ?g a"
    using s by (rule const_on_interval)
  moreover have "length (y s) = 3" "length (y a) = 3"
    using trajectory_components(1) [OF K sol] s by auto
  ultimately show ?thesis
    using trajectory_start [OF sol] by (simp add: sum_list3)
qed

lemma trajectory_zero:
  assumes sol: "ivp_solution (\<lambda>P t. dPdt P t [[0, 0, 0], [0, 0, 0], [0, 0, 0::real]]) y_init a b y"
    and s: "a \<le> s" "s \<le> b"
  shows "y s = y_init"
proof -
  have K: "make_K_matrix [0, 0, 0, 0::real] = Inr [[0, 0, 0], [0, 0, 0], [0, 0, 0]]"
    by (simp add: make_K_matrix_four)
  have comp: "y s ! i = y a ! i" if "i < 3" for i
  proof -
    have "((\<lambda>u. y u ! i) has_real_derivative 0) (at u within {a..b})" if u: "a \<le> u" "u \<le> b" for u
    proof -
      note c = trajectory_components(2-4) [OF K sol u]
      from \<open>i < 3\<close> consider "i = 0" | "i = 1" | "i = 2" by linarith
      then show ?thesis using c by cases simp_all
    qed
    then show ?thesis using s by (rule const_on_interval)
  qed
  have "length (y s) = 3" "length (y a) = 3"
    using trajectory_components(1) [OF K sol] s by auto
  then have "y s = y a"
    using comp by (intro nth_equalityI) auto
  then show ?thesis using trajectory_start [OF sol] by simp
qed

lemma trajectory_uncoupled:
  fixes k_em :: real
  assumes K: "make_K_matrix [k_em, 0, 0, k_nr] = Inr K"
    and sol: "ivp_solution (\<lambda>P t. dPdt P t K) y_init a b y"
    and s: "a \<le> s" "s \<le> b"
  shows "y s ! 2 = y_init ! 2"
    and "y s ! 1 = y_init ! 1 * exp (- (k_em + 0 + k_nr) * (s - a))"
proof -
  have "((\<lambda>u. y u ! 2) has_real_derivative 0) (at u within {a..b})" if u: "a \<le> u" "u \<le> b" for u
    using trajectory_components(4) [OF K sol u] by simp
  then have "y s ! 2 = y a ! 2" using s by (rule const_on_interval)
  then show "y s ! 2 = y_init ! 2" using trajectory_start [OF sol] by simp
  let ?r = "k_em + 0 + k_nr"
  let ?g = "\<lambda>u. y u ! 1 * exp (?r * (u - a))"
  have "(?g has_real_derivative 0) (at u within {a..b})" if u: "a \<le> u" "u \<le> b" for u
  proof -
    have e: "((\<lambda>u. exp (?r * (u - a))) has_real_derivative exp (?r * (u - a)) * ?r)
        (at u within {a..b})"
      by (auto intro!: derivative_eq_intros)
    have "(?g has_real_derivative
        (y u ! 1 * (exp (?r * (u - a)) * ?r)
          + (- (k_em + 0 + k_nr) * y u ! 1 + 0 * y u ! 2) * exp (?r * (u - a))))
        (at u within {a..b})"
      by (rule DERIV_mult' [OF trajectory_components(3) [OF K sol u] e])
    also have "y u ! 1 * (exp (?r * (u - a)) * ?r)
          + (- (k_em + 0 + k_nr) * y u ! 1 + 0 * y u ! 2) * exp (?r * (u - a)) = 0"
      by (simp add: algebra_simps)
    finally show ?thesis .
  qed
  then have "?g s = ?g a" using s by (rule const_on_interval)
  then have "y s ! 1 * exp (?r * (s - a)) = y_init ! 1"
    using trajectory_start [OF sol] by simp
  then have "y s ! 1 = y_init ! 1 * inverse (exp (?r * (s - a)))"
    by (simp add: field_simps)
  moreover have "exp (- ?r * (s - a)) = inverse (exp (?r * (s - a)))"
    by (simp add: exp_minus [symmetric] algebra_simps)
  ultimately show "y s ! 1 = y_init ! 1 * exp (- ?r * (s - a))"
    by simp
qed

lemma uncoupled_solution:
  fixes k_em k_nr q0 q1 q2 a b :: real
  assumes K: "make_K_matrix [k_em, 0, 0, k_nr] = Inr K"
  shows "ivp_solution (\<lambda>P t. dPdt P t K) [q0, q1, q2] a b
     (\<lambda>u. [q0 + q1 * (1 - exp (- (k_em + k_nr) * (u - a))),
           q1 * exp (- (k_em + k_nr) * (u - a)), q2])"
proof -
  let ?r = "k_em + k_nr"
  let ?y = "\<lambda>u. [q0 + q1 * (1 - exp (- ?r * (u - a))), q1 * exp (- ?r * (u - a)), q2]"
  have start: "?y a = [q0, q1, q2]" by simp
  have step: "\<exists>d. dPdt (?y s) s K = Inr d \<and> length (?y s) = length d \<and>
      (\<forall>i < length d. ((\<lambda>u. ?y u ! i) has_real_derivative d ! i) (at s within {a..b}))" for s
  proof (intro exI conjI allI impI)
    show "dPdt (?y s) s K = Inr [?r * (q1 * exp (- ?r * (s - a))),
        - (k_em + 0 + k_nr) * (q1 * exp (- ?r * (s - a))) + 0 * q2,
        0 * (q1 * exp (- ?r * (s - a))) - 0 * q2]"
      by (rule dPdt_make_K [OF K])
    show "length (?y s) = length [?r * (q1 * exp (- ?r * (s - a))),
        - (k_em + 0 + k_nr) * (q1 * exp (- ?r * (s - a))) + 0 * q2,
        0 * (q1 * exp (- ?r * (s - a))) - 0 * q2]"
      by simp
    fix i
    assume "i < length [?r * (q1 * exp (- ?r * (s - a))),
        - (k_em + 0 + k_nr) * (q1 * exp (- ?r * (s - a))) + 0 * q2,
        0 * (q1 * exp (- ?r * (s - a))) - 0 * q2]"
    then have "i < 3" by simp
    then show "((\<lambda>u. ?y u ! i) has_real_derivative
        [?r * (q1 * exp (- ?r * (s - a))),
        - (k_em + 0 + k_nr) * (q1 * exp (- ?r * (s - a))) + 0 * q2,
        0 * (q1 * exp (- ?r * (s - a))) - 0 * q2] ! i) (at s within {a..b})"
    proof (cases rule: nth3_cases)
      case 1
      then show ?thesis by (auto intro!: derivative_eq_intros simp: algebra_simps)
    next
      case 2
      then show ?thesis by (auto intro!: derivative_eq_intros simp: algebra_simps)
    next
      case 3
      then show ?thesis by simp
    qed
  qed
  show ?thesis
    unfolding ivp_solution_def using start step by blast
qed

lemma coupled_solution:
  fixes b :: real
  shows "ivp_solution (\<lambda>P t. dPdt P t [[0, 0, 0], [0, - 1, 1], [0, 1, - 1]]) [0, 1 / 4, 3 / 4] 0 b
     (\<lambda>u. [0, 1 / 2 - exp (- 2 * u) / 4, 1 / 2 + exp (- 2 * u) / 4])"
proof -
  let ?y = "\<lambda>u::real. [0, 1 / 2 - exp (- 2 * u) / 4, 1 / 2 + exp (- 2 * u) / 4]"
  let ?d = "\<lambda>s::real. [0, exp (- 2 * s) / 2, - exp (- 2 * s) / 2]"
  have start: "?y 0 = [0, 1 / 4, 3 / 4]" by simp
  have step: "\<exists>d. dPdt (?y s) s [[0, 0, 0], [0, - 1, 1], [0, 1, - 1]] = Inr d \<and>
      length (?y s) = length d \<and>
      (\<forall>i < length d. ((\<lambda>u. ?y u ! i) has_real_derivative d ! i) (at s within {0..b}))" for s
  proof (intro exI [of _ "?d s"] conjI allI impI)
    show "dPdt (?y s) s [[0, 0, 0], [0, - 1, 1], [0, 1, - 1]] = Inr (?d s)"
      by (simp add: dPdt_three)
    show "length (?y s) = length (?d s)" by simp
    fix i
    assume "i < length (?d s)"
    then have "i < 3" by simp
    then show "((\<lambda>u. ?y u ! i) has_real_derivative ?d s ! i) (at s within {0..b})"
    proof (cases rule: nth3_cases)
      case 1
      then show ?thesis by simp
    next
      case 2
      then show ?thesis by (auto intro!: derivative_eq_intros)
    next
      case 3
      then show ?thesis by (auto intro!: derivative_eq_intros)
    qed
  qed
  show ?thesis
    unfolding ivp_solution_def using start step by blast
qed

subsection \<open>The time window\<close>

lemma init_notebook_eq:
  "init_notebook = Inr \<lparr>P0 = [0, 25 / 100, 75 / 100],
     t_grid = map (\<lambda>i. 0 + real i * (1 / 10 ^ 10)) [0..<100000000],
     saved = []\<rparr>"
  by (simp add: init_notebook_def arange_def bind_def zeros_def setitem_def numeral_3_eq_3)

lemma grid_values:
  fixes a c :: real and n :: nat
  assumes "0 < n" "0 \<le> c"
  defines "ts \<equiv> map (\<lambda>i. a + real i * c) [0..<n]"
  shows "ts \<noteq> []" and "hd ts = a" and "last ts = a + real (n - 1) * c"
    and "s \<in> set ts \<Longrightarrow> hd ts \<le> s \<and> s \<le> last ts"
proof -
  from \<open>0 < n\<close> show ne: "ts \<noteq> []" by (simp add: ts_def)
  from \<open>0 < n\<close> show h: "hd ts = a" by (simp add: ts_def hd_map)
  from \<open>0 < n\<close> show l: "last ts = a + real (n - 1) * c" by (simp add: ts_def last_map)
  assume "s \<in> set ts"
  then obtain i where i: "i < n" "s = a + real i * c" by (auto simp: ts_def)
  then have "real i \<le> real (n - 1)" by simp
  then have "real i * c \<le> real (n - 1) * c"
    using \<open>0 \<le> c\<close> by (rule mult_right_mono)
  moreover have "0 \<le> real i * c" using \<open>0 \<le> c\<close> by simp
  ultimately show "hd ts \<le> s \<and> s \<le> last ts"
    unfolding h l i by simp
qed

lemma init_notebook_grid:
  assumes "init_notebook = Inr nb"
  shows "P0 nb = [0, 1 / 4, 3 / 4]" and "t_grid nb \<noteq> []" and "hd (t_grid nb) = 0"
    and "s \<in> set (t_grid nb) \<Longrightarrow> hd (t_grid nb) \<le> s \<and> s \<le> last (t_grid nb)"
proof -
  from assms have nb: "nb = \<lparr>P0 = [0, 25 / 100, 75 / 100],
     t_grid = map (\<lambda>i. 0 + real i * (1 / 10 ^ 10)) [0..<100000000],
     saved = []\<rparr>"
    by (simp add: init_notebook_eq)
  show "P0 nb = [0, 1 / 4, 3 / 4]" by (simp add: nb)
  have t: "t_grid nb = map (\<lambda>i. 0 + real i * (1 / 10 ^ 10)) [0..<100000000]"
    by (simp only: nb notebook.simps)
  show "t_grid nb \<noteq> []" unfolding t by (rule grid_values(1)) simp_all
  show "hd (t_grid nb) = 0" unfolding t by (rule grid_values(2)) simp_all
  show "s \<in> set (t_grid nb) \<Longrightarrow> hd (t_grid nb) \<le> s \<and> s \<le> last (t_grid nb)"
    unfolding t by (rule grid_values(4)) simp_all
qed

lemma init_notebook_times:
  assumes "init_notebook = Inr nb"
  shows "length (t_grid nb) = 100000000"
    and "i < 100000000 \<Longrightarrow> t_grid nb ! i = real i * (1 / 10 ^ 10)"
proof -
  from assms have t: "t_grid nb = map (\<lambda>i. 0 + real i * (1 / 10 ^ 10)) [0..<100000000]"
    by (auto simp: init_notebook_eq)
  show "length (t_grid nb) = 100000000" unfolding t by simp
  show "i < 100000000 \<Longrightarrow> t_grid nb ! i = real i * (1 / 10 ^ 10)" unfolding t by simp
qed

subsection \<open>File names\<close>

lemma replace_from_single:
  "replace_from [a] [b] 0 s = map (\<lambda>c. if c = a then b else c) s"
  by (induction s) simp_all

lemma str_replace_single:
  "str_replace s [a] [b] = map (\<lambda>c. if c = a then b else c) s"
  by (simp add: str_replace_def replace_from_single)

lemma basename_svg: "basename (s @ ''.svg'') = basename s @ ''.svg''"
  by (simp add: basename_def)

lemma basename_map:
  assumes "\<And>c. f c = CHR ''/'' \<longleftrightarrow> c = CHR ''/''"
  shows "basename (map f s) = map f (basename s)"
proof -
  have "takeWhile (\<lambda>c. c \<noteq> CHR ''/'') (map f xs) = map f (takeWhile (\<lambda>c. c \<noteq> CHR ''/'') xs)" for xs
    by (induction xs) (simp_all add: assms)
  then show ?thesis
    by (simp add: basename_def rev_map)
qed

lemma savefig_path_svg:
  "savefig_path (s @ ''.svg'') =
     (if list_all (\<lambda>c. c = CHR ''.'') (basename s) then (s @ ''.svg.png'', ''png'')
      else (s @ ''.svg'', ''svg''))"
  by (simp add: savefig_path_def splitext_def basename_svg rstrip_def Let_def)

lemma savefig_path_model_name:
  "savefig_path (str_replace mdl_name '' '' ''_'' @ ''.svg'') =
     (if list_all (\<lambda>c. c = CHR ''.'') (basename mdl_name)
      then (map (\<lambda>c. if c = CHR '' '' then CHR ''_'' else c) mdl_name @ ''.svg.png'', ''png'')
      else (map (\<lambda>c. if c = CHR '' '' then CHR ''_'' else c) mdl_name @ ''.svg'', ''svg''))"
proof -
  let ?f = "\<lambda>c. if c = CHR '' '' then CHR ''_'' else c"
  have "basename (map ?f mdl_name) = map ?f (basename mdl_name)"
    by (rule basename_map) simp
  moreover have "list_all (\<lambda>c. c = CHR ''.'') (map ?f b) = list_all (\<lambda>c. c = CHR ''.'') b" for b
    by (induction b) simp_all
  ultimately show ?thesis
    by (simp add: str_replace_single savefig_path_svg)
qed

subsection \<open>One call of \<open>plot_pops\<close>, one iteration, the loop\<close>

lemma savefig_Inr:
  "savefig env fname fig files = Inr files' \<longleftrightarrow>
     savefig_raises env (fst (savefig_path fname)) (snd (savefig_path fname)) fig = None \<and>
     files' = files @ [(fst (savefig_path fname), fig)]"
  by (auto simp: savefig_def split: option.splits)

lemma plot_pops_eq:
  "plot_pops env t sol mdl_name files = Inr files' \<longleftrightarrow>
     (\<exists>s0 s1 s2. column sol 0 = Inr s0 \<and> column sol 1 = Inr s1 \<and> column sol 2 = Inr s2 \<and>
        length s0 = length t \<and> length s1 = length t \<and> length s2 = length t \<and>
        savefig env (str_replace mdl_name '' '' ''_'' @ ''.svg'')
          \<lparr>title = mdl_name, xdata = t, curves = [s0, s1, s2]\<rparr> files = Inr files')"
  by (cases "column sol 0"; cases "column sol 1"; cases "column sol 2")
    (auto simp: plot_pops_def bind_def ax_plot_def)


lemma plot_pops_append:
  "plot_pops env t sol mdl_name files = Inr files' \<longleftrightarrow>
     (\<exists>file. plot_pops env t sol mdl_name [] = Inr [file] \<and> files' = files @ [file])"
  unfolding plot_pops_eq savefig_Inr by auto

lemma iteration_frame:
  assumes "iteration env rs im nb = (r, nb')"
  shows "P0 nb' = P0 nb" and "t_grid nb' = t_grid nb"
  using assms by (auto simp: iteration_def Let_def split: sum.splits)

lemma iteration_saved:
  assumes "iteration env rs im nb = (r, nb')"
  shows "(r = None \<and>
      (\<exists>ks K sol file. getitem rs (int (fst im)) = Inr ks \<and> make_K_matrix ks = Inr K \<and>
         odeint env dPdt (P0 nb) (t_grid nb) K = Inr sol \<and>
         plot_pops env (t_grid nb) sol (snd im) [] = Inr [file] \<and>
         saved nb' = saved nb @ [file]))
     \<or> (r \<noteq> None \<and> saved nb' = saved nb)"
proof -
  note d = iteration_def Let_def
  show ?thesis
  proof (cases "getitem rs (int (fst im))")
    case (Inl e)
    with assms show ?thesis by (auto simp: d)
  next
    case ks: (Inr ks)
    show ?thesis
    proof (cases "make_K_matrix ks")
      case (Inl e)
      with assms ks show ?thesis by (auto simp: d)
    next
      case K: (Inr K)
      show ?thesis
      proof (cases "odeint env dPdt (P0 nb) (t_grid nb) K")
        case (Inl e)
        with assms ks K show ?thesis by (auto simp: d)
      next
        case sol: (Inr sol)
        show ?thesis
        proof (cases "plot_pops env (t_grid nb) sol (snd im) (saved nb)")
          case (Inl e)
          with assms ks K sol show ?thesis by (auto simp: d)
        next
          case (Inr files)
          from plot_pops_append [THEN iffD1, OF this]
          obtain w where fl: "plot_pops env (t_grid nb) sol (snd im) [] = Inr [w]"
            "files = saved nb @ [w]"
            by blast
          from assms ks K sol Inr have "r = None" "nb' = nb\<lparr>saved := files\<rparr>"
            by (simp_all add: d)
          with ks K sol fl show ?thesis by auto
        qed
      qed
    qed
  qed
qed

lemma loop_frame:
  "loop env rs ims nb = (r, nb') \<Longrightarrow> P0 nb' = P0 nb \<and> t_grid nb' = t_grid nb"
proof (induction ims arbitrary: nb)
  case Nil
  then show ?case by simp
next
  case (Cons im ims)
  obtain r1 nb1 where it: "iteration env rs im nb = (r1, nb1)"
    by (cases "iteration env rs im nb")
  show ?case
  proof (cases r1)
    case None
    with Cons.prems it have "loop env rs ims nb1 = (r, nb')" by simp
    from Cons.IH [OF this] iteration_frame [OF it] show ?thesis by simp
  next
    case (Some e)
    with Cons.prems it have "nb' = nb1" by simp
    with iteration_frame [OF it] show ?thesis by simp
  qed
qed

lemma loop_saved:
  "loop env rs ims nb = (r, nb') \<Longrightarrow>
     \<exists>new. saved nb' = saved nb @ new \<and> length new \<le> length ims \<and>
       (r = None \<longrightarrow> length new = length ims) \<and>
       list_all2
         (\<lambda>im file. \<exists>ks K sol. getitem rs (int (fst im)) = Inr ks \<and> make_K_matrix ks = Inr K \<and>
            odeint env dPdt (P0 nb) (t_grid nb) K = Inr sol \<and>
            plot_pops env (t_grid nb) sol (snd im) [] = Inr [file])
         (take (length new) ims) new"
proof (induction ims arbitrary: nb)
  case Nil
  then show ?case by simp
next
  case (Cons im ims)
  let ?drawn = "\<lambda>nb im file. \<exists>ks K sol. getitem rs (int (fst im)) = Inr ks \<and>
      make_K_matrix ks = Inr K \<and> odeint env dPdt (P0 nb) (t_grid nb) K = Inr sol \<and>
      plot_pops env (t_grid nb) sol (snd im) [] = Inr [file]"
  obtain r1 nb1 where it: "iteration env rs im nb = (r1, nb1)"
    by (cases "iteration env rs im nb")
  show ?case
  proof (cases r1)
    case None
    with iteration_saved [OF it] obtain w where
      fl: "?drawn nb im w" "saved nb1 = saved nb @ [w]"
      by blast
    from None Cons.prems it have "loop env rs ims nb1 = (r, nb')" by simp
    from Cons.IH [OF this] obtain new where
      new: "saved nb' = saved nb1 @ new" "length new \<le> length ims"
        "r = None \<longrightarrow> length new = length ims"
        "list_all2 (?drawn nb1) (take (length new) ims) new"
      by blast
    from new(4) iteration_frame [OF it]
    have "list_all2 (?drawn nb) (take (length new) ims) new" by simp
    with fl(1) have "list_all2 (?drawn nb) (take (length (w # new)) (im # ims)) (w # new)"
      by simp
    moreover have "saved nb' = saved nb @ (w # new)"
      using new(1) fl(2) by simp
    moreover have "length (w # new) \<le> length (im # ims)"
      "r = None \<longrightarrow> length (w # new) = length (im # ims)"
      using new(2,3) by simp_all
    ultimately show ?thesis by blast
  next
    case (Some e)
    with Cons.prems it have "nb' = nb1" "r = Some e" by simp_all
    with iteration_saved [OF it] Some have "saved nb' = saved nb @ []" "r \<noteq> None"
      by simp_all
    then show ?thesis
      by (intro exI [of _ "[]"]) simp
  qed
qed

text \<open>The same for a run over a table: row \<open>j\<close> of the table gives the \<open>j\<close>-th file.\<close>

lemma run_models_saved:
  assumes "run_models env df nb = (r, nb')"
  shows "P0 nb' = P0 nb \<and> t_grid nb' = t_grid nb \<and>
     (\<exists>new. saved nb' = saved nb @ new \<and> length new \<le> length df \<and>
        (r = None \<longrightarrow> length new = length df) \<and>
        list_all2
          (\<lambda>row file. case row of (dye, k_em, k_ISC, k_rISC, k_nr) \<Rightarrow>
             \<exists>K sol. make_K_matrix [k_em, k_ISC, k_rISC, k_nr] = Inr K \<and>
               odeint env dPdt (P0 nb) (t_grid nb) K = Inr sol \<and>
               plot_pops env (t_grid nb) sol dye [] = Inr [file])
          (take (length new) df) new)"
proof -
  from assms have run: "loop env (rates df) (enumerate 0 (mdls df)) nb = (r, nb')"
    by (simp add: run_models_def)
  from loop_saved [OF run] obtain new where
    new: "saved nb' = saved nb @ new" "length new \<le> length df"
      "r = None \<longrightarrow> length new = length df"
      "list_all2
         (\<lambda>im file. \<exists>ks K sol. getitem (rates df) (int (fst im)) = Inr ks \<and>
            make_K_matrix ks = Inr K \<and>
            odeint env dPdt (P0 nb) (t_grid nb) K = Inr sol \<and>
            plot_pops env (t_grid nb) sol (snd im) [] = Inr [file])
         (take (length new) (enumerate 0 (mdls df))) new"
    by (auto simp: mdls_def)
  have "list_all2
          (\<lambda>row file. case row of (dye, k_em, k_ISC, k_rISC, k_nr) \<Rightarrow>
             \<exists>K sol. make_K_matrix [k_em, k_ISC, k_rISC, k_nr] = Inr K \<and>
               odeint env dPdt (P0 nb) (t_grid nb) K = Inr sol \<and>
               plot_pops env (t_grid nb) sol dye [] = Inr [file])
          (take (length new) df) new"
  proof (rule list_all2_all_nthI)
    show "length (take (length new) df) = length new"
      using new(2) by simp
    fix j
    assume "j < length (take (length new) df)"
    then have j: "j < length new" "j < length df"
      using new(2) by simp_all
    obtain dye k_em k_ISC k_rISC k_nr where row: "df ! j = (dye, k_em, k_ISC, k_rISC, k_nr)"
      by (cases "df ! j")
    have im: "take (length new) (enumerate 0 (mdls df)) ! j = (j, dye)"
      using j row by (simp add: mdls_def nth_enumerate_eq)
    have ks: "getitem (rates df) (int j) = Inr [k_em, k_ISC, k_rISC, k_nr]"
      using j row by (simp add: getitem_def rates_def)
    from list_all2_nthD [OF new(4), of j] j im ks
    have "\<exists>K sol. make_K_matrix [k_em, k_ISC, k_rISC, k_nr] = Inr K \<and>
        odeint env dPdt (P0 nb) (t_grid nb) K = Inr sol \<and>
        plot_pops env (t_grid nb) sol dye [] = Inr [new ! j]"
      by (auto simp: mdls_def)
    then show "case take (length new) df ! j of (dye, k_em, k_ISC, k_rISC, k_nr) \<Rightarrow>
        \<exists>K sol. make_K_matrix [k_em, k_ISC, k_rISC, k_nr] = Inr K \<and>
          odeint env dPdt (P0 nb) (t_grid nb) K = Inr sol \<and>
          plot_pops env (t_grid nb) sol dye [] = Inr [new ! j]"
      using j row by simp
  qed
  with new loop_frame [OF run] show ?thesis by blast
qed

lemma column_const:
  "j < length c \<Longrightarrow> column (map (\<lambda>s. c) ts) j = Inr (map (\<lambda>s. c ! j) ts)"
  by (simp add: column_def list_all_iff)

lemma plot_pops_const:
  "plot_pops env t (map (\<lambda>s. [a, b, c]) t) mdl_name files =
     savefig env (str_replace mdl_name '' '' ''_'' @ ''.svg'')
       \<lparr>title = mdl_name, xdata = t,
          curves = [map (\<lambda>s. a) t, map (\<lambda>s. b) t, map (\<lambda>s. c) t]\<rparr> files"
  by (simp add: plot_pops_def column_const bind_def ax_plot_def)

text \<open>
  A run in an environment where the integrator returns the initial vector at every time
  (as it does for rates that are all zero) and every figure is written.
\<close>

lemma example_run:
  assumes "init_notebook = Inr nb"
  shows "run_notebook
      \<lparr>odeint = \<lambda>f y0 t K. Inr (map (\<lambda>s. y0) t), savefig_raises = \<lambda>path format fig. None\<rparr>
      [(''dye A'', 0, 0, 0, 0), (''my new dye'', 0, 0, 0, 0)] =
    Inr (None, nb\<lparr>saved :=
      [(''dye_A.svg'', \<lparr>title = ''dye A'', xdata = t_grid nb,
          curves = [map (\<lambda>s. 0) (t_grid nb), map (\<lambda>s. 1 / 4) (t_grid nb),
                    map (\<lambda>s. 3 / 4) (t_grid nb)]\<rparr>),
       (''my_new_dye.svg'', \<lparr>title = ''my new dye'', xdata = t_grid nb,
          curves = [map (\<lambda>s. 0) (t_grid nb), map (\<lambda>s. 1 / 4) (t_grid nb),
                    map (\<lambda>s. 3 / 4) (t_grid nb)]\<rparr>)]\<rparr>)"
proof -
  from assms have p: "P0 nb = [0, 1 / 4, 3 / 4]" and s: "saved nb = []"
    by (auto simp: init_notebook_eq)
  show ?thesis
    by (simp add: run_notebook_def run_models_def assms bind_def rates_def mdls_def
        enumerate_eq_zip upt_rec iteration_def Let_def getitem_def make_K_matrix_four p s
        plot_pops_const savefig_def savefig_path_model_name basename_def)
qed


section \<open>The claims\<close>

text \<open>
  Claim C1. For every four rate constants \<open>k_em\<close>, \<open>k_ISC\<close>, \<open>k_rISC\<close>, \<open>k_nr\<close>,
  \<open>make_K_matrix\<close> returns the matrix with \<open>K[0][1] = k_em + k_nr\<close>,
  \<open>K[1][1] = -(k_em + k_ISC + k_nr)\<close>, \<open>K[1][2] = k_rISC\<close>, \<open>K[2][1] = k_ISC\<close>,
  \<open>K[2][2] = -k_rISC\<close> and every other entry zero. The entries are the source's
  expressions, so this holds over any number type.
\<close>

theorem make_K_matrix_entries:
  "make_K_matrix [k_em, k_ISC, k_rISC, k_nr] =
     Inr [[0, k_em + k_nr, 0],
          [0, - (k_em + k_ISC + k_nr), k_rISC],
          [0, k_ISC, - k_rISC]]"
  by (simp add: make_K_matrix_def bind_def getitem_def setitem2_def zeros2_def
      numeral_3_eq_3)

text \<open>
  Claim C2, as amended. In exact arithmetic, over the reals, the matrix built by
  \<open>make_K_matrix\<close> has each of its three columns summing to zero. In the arithmetic of the
  code, \<open>float64\<close>, column 0 is zero throughout, column 2 sums to zero for a finite
  \<open>k_rISC\<close>, and the first row is zero outside \<open>K[0][1]\<close>; the sum of column 1 is not
  promised there.
\<close>

theorem columns_sum_to_zero:
  fixes k_em k_ISC k_rISC k_nr :: real
    and f_em f_ISC f_rISC f_nr :: float64
  shows "(\<exists>K c0 c1 c2. make_K_matrix [k_em, k_ISC, k_rISC, k_nr] = Inr K \<and>
       column K 0 = Inr c0 \<and> column K 1 = Inr c1 \<and> column K 2 = Inr c2 \<and>
       sum_list c0 = 0 \<and> sum_list c1 = 0 \<and> sum_list c2 = 0 \<and>
       c0 = [0, 0, 0] \<and> K ! 0 ! 0 = 0 \<and> K ! 0 ! 2 = 0) \<and>
     (finite64 f_rISC \<longrightarrow>
       (\<exists>K c0 c2. make_K_matrix [f_em, f_ISC, f_rISC, f_nr] = Inr K \<and>
          column K 0 = Inr c0 \<and> column K 2 = Inr c2 \<and>
          c0 = [0, 0, 0] \<and> foldl (+) 0 c0 = 0 \<and> foldl (+) 0 c2 = 0 \<and>
          K ! 0 ! 0 = 0 \<and> K ! 0 ! 2 = 0))"
proof (intro conjI impI)
  show "\<exists>K c0 c1 c2. make_K_matrix [k_em, k_ISC, k_rISC, k_nr] = Inr K \<and>
       column K 0 = Inr c0 \<and> column K 1 = Inr c1 \<and> column K 2 = Inr c2 \<and>
       sum_list c0 = 0 \<and> sum_list c1 = 0 \<and> sum_list c2 = 0 \<and>
       c0 = [0, 0, 0] \<and> K ! 0 ! 0 = 0 \<and> K ! 0 ! 2 = 0"
    by (simp add: make_K_matrix_four column_def)
next
  assume "finite64 f_rISC"
  then obtain x where x: "f_rISC = Finite x" "round64 x = Finite x"
    by (cases f_rISC) (simp_all add: finite64_def)
  show "\<exists>K c0 c2. make_K_matrix [f_em, f_ISC, f_rISC, f_nr] = Inr K \<and>
          column K 0 = Inr c0 \<and> column K 2 = Inr c2 \<and>
          c0 = [0, 0, 0] \<and> foldl (+) 0 c0 = 0 \<and> foldl (+) 0 c2 = 0 \<and>
          K ! 0 ! 0 = 0 \<and> K ! 0 ! 2 = 0"
    by (simp add: make_K_matrix_four column_def x)
qed

theorem columns_sum_to_zero_witness:
  "finite64 (Finite 1) \<and>
   (\<exists>K c1. make_K_matrix [1, 2, 3, 4 :: real] = Inr K \<and> column K 1 = Inr c1 \<and> sum_list c1 = 0) \<and>
   (\<exists>K c2. make_K_matrix [Finite (2 ^ 53), Finite 1, Finite 1, Finite 0] = Inr K \<and>
      column K 2 = Inr c2 \<and> foldl (+) 0 c2 = 0 \<and> K ! 0 ! 2 = 0)"
proof -
  have f: "finite64 (Finite 1)" by (rule finite64_simps)
  from columns_sum_to_zero [of 1 2 3 4 "Finite 1" "Finite (2 ^ 53)" "Finite 1" "Finite 0"] f
  show ?thesis by blast
qed

text \<open>
  The claim as stated fails in \<open>float64\<close>: for the rates \<open>(2^53, 1, 0, 0)\<close> the sum
  \<open>2^53 + 1\<close> rounds to \<open>2^53\<close>, column 1 is \<open>[2^53, -2^53, 1]\<close> and sums to 1, in either
  order of adding.
\<close>

theorem columns_sum_to_zero_float64_counterexample:
  "finite64 (Finite (2 ^ 53)) \<and> finite64 (Finite 1) \<and> finite64 (Finite 0) \<and>
   make_K_matrix [Finite (2 ^ 53), Finite 1, Finite 0, Finite 0] =
     Inr [[Finite 0, Finite (2 ^ 53), Finite 0],
          [Finite 0, Finite (- (2 ^ 53)), Finite 0],
          [Finite 0, Finite 1, Finite 0]] \<and>
   column [[Finite 0, Finite (2 ^ 53), Finite 0],
           [Finite 0, Finite (- (2 ^ 53)), Finite 0],
           [Finite 0, Finite 1, Finite 0]] 1 =
     Inr [Finite (2 ^ 53), Finite (- (2 ^ 53)), Finite 1] \<and>
   Finite (2 ^ 53) + Finite (- (2 ^ 53)) + Finite 1 = Finite 1 \<and>
   Finite (2 ^ 53) + (Finite (- (2 ^ 53)) + Finite 1) = Finite 1 \<and>
   Finite 1 \<noteq> (0::float64)"
proof -
  have m: "round64 (1 - 2 ^ 53) = Finite (1 - 2 ^ 53)"
    using round64_exact [of "1 - 2 ^ 53" "1 - 2 ^ 53" 0] by simp
  note r = round64_tie [simplified] round64_pow53 [simplified] m [simplified]
  show ?thesis
    using finite64_simps by (simp add: make_K_matrix_four column_def r round64_one)
qed

text \<open>
  Claim C3, as amended. In exact arithmetic, over the reals, the three components of
  \<open>dPdt(P, t, K)\<close> sum to zero for every quadruple of rate constants, every population
  vector and every time. Hence the total population of every exact solution of
  \<open>dP/dt = K P\<close> keeps the value it starts with, and an exact solution over the notebook's
  time window that starts from the notebook's \<open>P0 = [0, 0.25, 0.75]\<close> has total population
  1 at every sampled time.
\<close>

theorem total_population_conserved:
  fixes k_em k_ISC k_rISC k_nr :: real
  assumes K: "make_K_matrix [k_em, k_ISC, k_rISC, k_nr] = Inr K"
  shows "(\<exists>d. dPdt [pG, pS, pT] t K = Inr d \<and> sum_list d = 0) \<and>
     (ivp_solution (\<lambda>P t. dPdt P t K) y_init a b y \<and> a \<le> s \<and> s \<le> b \<longrightarrow>
        sum_list (y s) = sum_list y_init) \<and>
     (init_notebook = Inr nb \<and>
      ivp_solution (\<lambda>P t. dPdt P t K) (P0 nb) (hd (t_grid nb)) (last (t_grid nb)) y \<longrightarrow>
        list_all (\<lambda>s. sum_list (y s) = 1) (t_grid nb))"
proof (intro conjI impI)
  show "\<exists>d. dPdt [pG, pS, pT] t K = Inr d \<and> sum_list d = 0"
    unfolding dPdt_make_K [OF K] by (simp add: algebra_simps)
  show "sum_list (y s) = sum_list y_init"
    if "ivp_solution (\<lambda>P t. dPdt P t K) y_init a b y \<and> a \<le> s \<and> s \<le> b"
    using that trajectory_sum [OF K] by blast
  show "list_all (\<lambda>s. sum_list (y s) = 1) (t_grid nb)"
    if h: "init_notebook = Inr nb \<and>
      ivp_solution (\<lambda>P t. dPdt P t K) (P0 nb) (hd (t_grid nb)) (last (t_grid nb)) y"
  proof -
    from h have nb: "init_notebook = Inr nb"
      and sol: "ivp_solution (\<lambda>P t. dPdt P t K) (P0 nb) (hd (t_grid nb)) (last (t_grid nb)) y"
      by simp_all
    have "sum_list (y s) = 1" if "s \<in> set (t_grid nb)" for s
    proof -
      from init_notebook_grid(4) [OF nb that]
      have "sum_list (y s) = sum_list (P0 nb)"
        using trajectory_sum [OF K sol] by blast
      then show ?thesis by (simp add: init_notebook_grid(1) [OF nb])
    qed
    then show ?thesis by (simp add: list_all_iff)
  qed
qed

theorem total_population_conserved_witness:
  "make_K_matrix [0, 1, 1, 0::real] = Inr [[0, 0, 0], [0, - 1, 1], [0, 1, - 1]] \<and>
   (\<exists>d. dPdt [0, 1 / 4, 3 / 4] (0::real) [[0, 0, 0], [0, - 1, 1], [0, 1, - 1::real]] = Inr d \<and>
        sum_list d = 0) \<and>
   ivp_solution (\<lambda>P t. dPdt P t [[0, 0, 0], [0, - 1, 1], [0, 1, - 1]]) [0, 1 / 4, 3 / 4] 0 2
     (\<lambda>u. [0, 1 / 2 - exp (- 2 * u) / 4, 1 / 2 + exp (- 2 * u) / 4]) \<and>
   sum_list [0, 1 / 2 - exp (- 2 * 1) / 4, 1 / 2 + exp (- 2 * 1) / 4 :: real] =
     sum_list [0, 1 / 4, 3 / 4] \<and>
   ivp_solution (\<lambda>P t. dPdt P t [[0, 0, 0], [0, - 1, 1], [0, 1, - 1]])
     (P0 (projr init_notebook)) (hd (t_grid (projr init_notebook)))
     (last (t_grid (projr init_notebook)))
     (\<lambda>u. [0, 1 / 2 - exp (- 2 * u) / 4, 1 / 2 + exp (- 2 * u) / 4]) \<and>
   list_all (\<lambda>s. sum_list [0, 1 / 2 - exp (- 2 * s) / 4, 1 / 2 + exp (- 2 * s) / 4] = 1)
     (t_grid (projr init_notebook))"
proof -
  have K: "make_K_matrix [0, 1, 1, 0::real] = Inr [[0, 0, 0], [0, - 1, 1], [0, 1, - 1]]"
    by (simp add: make_K_matrix_four)
  obtain nb where nb: "init_notebook = Inr nb"
    by (simp add: init_notebook_eq)
  have p: "projr init_notebook = nb" unfolding nb by simp
  let ?y = "\<lambda>u::real. [0, 1 / 2 - exp (- 2 * u) / 4, 1 / 2 + exp (- 2 * u) / 4]"
  have sol1: "ivp_solution (\<lambda>P t. dPdt P t [[0, 0, 0], [0, - 1, 1], [0, 1, - 1]])
      [0, 1 / 4, 3 / 4] 0 2 ?y"
    by (rule coupled_solution)
  have sol2: "ivp_solution (\<lambda>P t. dPdt P t [[0, 0, 0], [0, - 1, 1], [0, 1, - 1]])
      (P0 nb) (hd (t_grid nb)) (last (t_grid nb)) ?y"
    unfolding init_notebook_grid(1,3) [OF nb] by (rule coupled_solution)
  note inst = total_population_conserved [OF K, where pG = 0 and pS = "1 / 4" and pT = "3 / 4"
      and t = "0::real" and y_init = "[0, 1 / 4, 3 / 4]" and a = 0 and b = 2 and s = 1
      and y = ?y and nb = nb]
  from inst have d: "\<exists>d. dPdt [0, 1 / 4, 3 / 4] (0::real)
      [[0, 0, 0], [0, - 1, 1], [0, 1, - 1::real]] = Inr d \<and> sum_list d = 0"
    by blast
  from inst sol1 have c1: "sum_list (?y 1) = sum_list [0, 1 / 4, 3 / 4]"
    by simp
  from inst sol2 nb have c2: "list_all (\<lambda>s. sum_list (?y s) = 1) (t_grid nb)"
    by blast
  from K d sol1 c1 sol2 c2 show ?thesis
    unfolding p by blast
qed

text \<open>
  The first part of the claim as stated fails in \<open>float64\<close>: with the matrix of the rates
  \<open>(2^53, 1, 0, 0)\<close> the derivative at \<open>P0 = [0, 0.25, 0.75]\<close> is \<open>[2^51, -2^51, 0.25]\<close>,
  whose components sum to 0.25. Every row of this matrix has one entry that is not zero and
  every product is exact, so no order of adding gives another derivative.
\<close>

theorem dPdt_sum_float64_counterexample:
  "finite64 (Finite (1 / 4)) \<and> finite64 (Finite (3 / 4)) \<and>
   make_K_matrix [Finite (2 ^ 53), Finite 1, Finite 0, Finite 0] =
     Inr [[Finite 0, Finite (2 ^ 53), Finite 0],
          [Finite 0, Finite (- (2 ^ 53)), Finite 0],
          [Finite 0, Finite 1, Finite 0]] \<and>
   dPdt [Finite 0, Finite (1 / 4), Finite (3 / 4)] (Finite 0)
       [[Finite 0, Finite (2 ^ 53), Finite 0],
        [Finite 0, Finite (- (2 ^ 53)), Finite 0],
        [Finite 0, Finite 1, Finite 0]] =
     Inr [Finite (2 ^ 51), Finite (- (2 ^ 51)), Finite (1 / 4)] \<and>
   Finite (2 ^ 51) + Finite (- (2 ^ 51)) + Finite (1 / 4) = Finite (1 / 4) \<and>
   Finite (1 / 4) \<noteq> (0::float64)"
proof -
  have m: "round64 (- (2 ^ 51)) = Finite (- (2 ^ 51))"
    unfolding round64_minus round64_pow51 by simp
  note r = round64_tie [simplified] round64_pow53 [simplified] round64_pow51 [simplified]
    m [simplified]
  show ?thesis
    using finite64_simps
    by (simp add: make_K_matrix_four dPdt_def dot_def dot_row_def r round64_quarter)
qed

text \<open>
  Claim C4. The all-zero quadruple gives the zero matrix, \<open>dPdt\<close> is then the zero
  vector for every population vector and time, and every solution from any initial vector
  equals that vector at every time sample.
\<close>

theorem zero_rates_constant_trajectory:
  "make_K_matrix [0, 0, 0, 0::real] = Inr [[0, 0, 0], [0, 0, 0], [0, 0, 0]] \<and>
   (make_K_matrix [0, 0, 0, 0::real] = Inr K \<longrightarrow>
      dPdt [pG, pS, pT] t K = Inr [0, 0, 0] \<and>
      (ivp_solution (\<lambda>P t. dPdt P t K) y_init a b y \<and> list_all (\<lambda>s. a \<le> s \<and> s \<le> b) ts \<longrightarrow>
         map y ts = replicate (length ts) y_init))"
proof (intro conjI impI)
  show K0: "make_K_matrix [0, 0, 0, 0::real] = Inr [[0, 0, 0], [0, 0, 0], [0, 0, 0]]"
    by (simp add: make_K_matrix_four)
  assume "make_K_matrix [0, 0, 0, 0::real] = Inr K"
  with K0 have K: "K = [[0, 0, 0], [0, 0, 0], [0, 0, 0]]" by simp
  show "dPdt [pG, pS, pT] t K = Inr [0, 0, 0]"
    unfolding K by (simp add: dPdt_three)
  assume h: "ivp_solution (\<lambda>P t. dPdt P t K) y_init a b y \<and> list_all (\<lambda>s. a \<le> s \<and> s \<le> b) ts"
  then have sol: "ivp_solution (\<lambda>P t. dPdt P t [[0, 0, 0], [0, 0, 0], [0, 0, 0]]) y_init a b y"
    unfolding K by simp
  have "y s = y_init" if "s \<in> set ts" for s
    using trajectory_zero [OF sol, of s] h that by (simp add: list_all_iff)
  then show "map y ts = replicate (length ts) y_init"
    by (simp add: map_replicate_const [symmetric])
qed

theorem zero_rates_constant_trajectory_witness:
  "make_K_matrix [0, 0, 0, 0::real] = Inr [[0, 0, 0], [0, 0, 0], [0, 0, 0]] \<and>
   dPdt [5, 1 / 4, 3 / 4] (7::real) [[0, 0, 0], [0, 0, 0], [0, 0, 0::real]] = Inr [0, 0, 0] \<and>
   ivp_solution (\<lambda>P t. dPdt P t [[0, 0, 0], [0, 0, 0], [0, 0, 0]]) [5, 1 / 4, 3 / 4] 0 1
     (\<lambda>u. [5, 1 / 4, 3 / 4]) \<and>
   map (\<lambda>u::real. [5, 1 / 4, 3 / 4 :: real]) [0, 1 / 2, 1] = replicate 3 [5, 1 / 4, 3 / 4]"
proof -
  have K: "make_K_matrix [0, 0, 0, 0::real] = Inr [[0, 0, 0], [0, 0, 0], [0, 0, 0]]"
    by (simp add: make_K_matrix_four)
  have "ivp_solution (\<lambda>P t. dPdt P t [[0, 0, 0], [0, 0, 0], [0, 0, 0]]) [5, 1 / 4, 3 / 4] 0 1
     (\<lambda>u. [5 + 1 / 4 * (1 - exp (- (0 + 0) * (u - 0))), 1 / 4 * exp (- (0 + 0) * (u - 0)), 3 / 4])"
    using uncoupled_solution [of 0 0 _ 5 "1 / 4" "3 / 4" 0 1] K by simp
  then have sol: "ivp_solution (\<lambda>P t. dPdt P t [[0, 0, 0], [0, 0, 0], [0, 0, 0]])
      [5, 1 / 4, 3 / 4] 0 1 (\<lambda>u. [5, 1 / 4, 3 / 4])"
    by simp
  have ts: "list_all (\<lambda>s::real. 0 \<le> s \<and> s \<le> 1) [0, 1 / 2, 1]" by simp
  from zero_rates_constant_trajectory [where K = "[[0, 0, 0], [0, 0, 0], [0, 0, 0]]"
      and pG = 5 and pS = "1 / 4" and pT = "3 / 4" and t = "7::real"
      and y_init = "[5, 1 / 4, 3 / 4]" and a = 0 and b = 1 and y = "\<lambda>u. [5, 1 / 4, 3 / 4]"
      and ts = "[0, 1 / 2, 1]"] K sol ts
  show ?thesis by (simp add: numeral_3_eq_3)
qed

text \<open>
  Claim C5. With \<open>k_ISC = 0\<close> and \<open>k_rISC = 0\<close> the T1 component of \<open>dPdt\<close> is zero
  and the S1 component is \<open>-(k_em + k_ISC + k_nr) * P_S1\<close>; along every solution the T1
  population is constant and the S1 population is its initial value times
  \<open>exp(-(k_em + k_ISC + k_nr) (t - a))\<close>.
\<close>

theorem uncoupled_decay:
  fixes k_em k_ISC k_rISC k_nr :: real
  assumes "k_ISC = 0" and "k_rISC = 0"
    and K: "make_K_matrix [k_em, k_ISC, k_rISC, k_nr] = Inr K"
  shows "(\<exists>d. dPdt [pG, pS, pT] t K = Inr d \<and> d ! 2 = 0 \<and> d ! 1 = - (k_em + k_ISC + k_nr) * pS) \<and>
     (ivp_solution (\<lambda>P t. dPdt P t K) y_init a b y \<and> a \<le> s \<and> s \<le> b \<longrightarrow>
        y s ! 2 = y_init ! 2 \<and> y s ! 1 = y_init ! 1 * exp (- (k_em + k_ISC + k_nr) * (s - a)))"
proof (intro conjI impI)
  from assms have K': "make_K_matrix [k_em, 0, 0, k_nr] = Inr K" by simp
  show "\<exists>d. dPdt [pG, pS, pT] t K = Inr d \<and> d ! 2 = 0 \<and> d ! 1 = - (k_em + k_ISC + k_nr) * pS"
    unfolding dPdt_make_K [OF K] using assms(1,2) by simp
  assume h: "ivp_solution (\<lambda>P t. dPdt P t K) y_init a b y \<and> a \<le> s \<and> s \<le> b"
  then have sol: "ivp_solution (\<lambda>P t. dPdt P t K) y_init a b y" and s: "a \<le> s" "s \<le> b"
    by simp_all
  show "y s ! 2 = y_init ! 2"
    by (rule trajectory_uncoupled(1) [OF K' sol s])
  show "y s ! 1 = y_init ! 1 * exp (- (k_em + k_ISC + k_nr) * (s - a))"
    unfolding \<open>k_ISC = 0\<close> by (rule trajectory_uncoupled(2) [OF K' sol s])
qed

theorem uncoupled_decay_witness:
  "make_K_matrix [2, 0, 0, 1::real] = Inr [[0, 3, 0], [0, - 3, 0], [0, 0, 0]] \<and>
   (\<exists>d. dPdt [0, 1 / 4, 3 / 4] (0::real) [[0, 3, 0], [0, - 3, 0], [0, 0, 0::real]] = Inr d \<and>
      d ! 2 = 0 \<and> d ! 1 = - (2 + 0 + 1) * (1 / 4)) \<and>
   ivp_solution (\<lambda>P t. dPdt P t [[0, 3, 0], [0, - 3, 0], [0, 0, 0]]) [0, 1 / 4, 3 / 4] 0 2
     (\<lambda>u. [1 / 4 * (1 - exp (- 3 * u)), 1 / 4 * exp (- 3 * u), 3 / 4]) \<and>
   [1 / 4 * (1 - exp (- 3 * 1)), 1 / 4 * exp (- 3 * 1), 3 / 4 :: real] ! 1 =
     [0, 1 / 4, 3 / 4] ! 1 * exp (- (2 + 0 + 1) * (1 - 0))"
proof -
  have K: "make_K_matrix [2, 0, 0, 1::real] = Inr [[0, 3, 0], [0, - 3, 0], [0, 0, 0]]"
    by (simp add: make_K_matrix_four)
  have sol: "ivp_solution (\<lambda>P t. dPdt P t [[0, 3, 0], [0, - 3, 0], [0, 0, 0]])
      [0, 1 / 4, 3 / 4] 0 2 (\<lambda>u. [1 / 4 * (1 - exp (- 3 * u)), 1 / 4 * exp (- 3 * u), 3 / 4])"
    using uncoupled_solution [OF K, of 0 "1 / 4" "3 / 4" 0 2] by simp
  from uncoupled_decay [OF refl refl K, where pG = 0 and pS = "1 / 4" and pT = "3 / 4"
      and t = "0::real" and y_init = "[0, 1 / 4, 3 / 4]" and a = 0 and b = 2 and s = 1
      and y = "\<lambda>u. [1 / 4 * (1 - exp (- 3 * u)), 1 / 4 * exp (- 3 * u), 3 / 4]"] sol K
  show ?thesis by simp
qed

text \<open>
  Claim C6, as amended. The time window \<open>np.arange(0, 1e-2, 1e-10)\<close> starts at 0, stays
  below \<open>1e-2\<close>, advances in uniform steps of \<open>1e-10\<close> and has one hundred million
  (\<open>10^8\<close>) samples.
\<close>

theorem time_grid:
  "\<exists>nb. init_notebook = Inr nb \<and>
     length (t_grid nb) = 100000000 \<and>
     t_grid nb ! 0 = 0 \<and>
     (\<forall>i < length (t_grid nb). t_grid nb ! i = real i * (1 / 10 ^ 10) \<and> t_grid nb ! i < 1 / 10 ^ 2) \<and>
     (\<forall>i. Suc i < length (t_grid nb) \<longrightarrow> t_grid nb ! Suc i - t_grid nb ! i = 1 / 10 ^ 10)"
proof -
  obtain nb where nb: "init_notebook = Inr nb"
    by (simp add: init_notebook_eq)
  note len = init_notebook_times(1) [OF nb] and val = init_notebook_times(2) [OF nb]
  have "t_grid nb ! 0 = 0" using val [of 0] by simp
  moreover have "t_grid nb ! i = real i * (1 / 10 ^ 10) \<and> t_grid nb ! i < 1 / 10 ^ 2"
    if "i < length (t_grid nb)" for i
  proof -
    from that len have i: "i < 100000000" by simp
    then have "real i < 100000000" by simp
    then have "real i * (1 / 10 ^ 10) < 100000000 * (1 / 10 ^ 10)"
      by (rule mult_strict_right_mono) simp
    with val [OF i] show ?thesis by simp
  qed
  moreover have "t_grid nb ! Suc i - t_grid nb ! i = 1 / 10 ^ 10"
    if "Suc i < length (t_grid nb)" for i
  proof -
    from that len have "Suc i < 100000000" "i < 100000000" by simp_all
    then show ?thesis by (simp add: val algebra_simps)
  qed
  ultimately show ?thesis using nb len by blast
qed

theorem time_grid_witness:
  "t_grid (projr init_notebook) ! 99999999 = 99999999 / 10 ^ 10 \<and>
   t_grid (projr init_notebook) ! 99999999 < 1 / 10 ^ 2 \<and>
   t_grid (projr init_notebook) ! Suc 0 - t_grid (projr init_notebook) ! 0 = 1 / 10 ^ 10"
proof -
  from time_grid obtain nb where nb: "init_notebook = Inr nb"
    and len: "length (t_grid nb) = 100000000"
    and val: "\<forall>i < length (t_grid nb).
      t_grid nb ! i = real i * (1 / 10 ^ 10) \<and> t_grid nb ! i < 1 / 10 ^ 2"
    and step: "\<forall>i. Suc i < length (t_grid nb) \<longrightarrow>
      t_grid nb ! Suc i - t_grid nb ! i = 1 / 10 ^ 10"
    by blast
  have "(99999999::nat) < length (t_grid nb)" "Suc 0 < length (t_grid nb)"
    using len by simp_all
  with val step have "t_grid nb ! 99999999 = real 99999999 * (1 / 10 ^ 10)"
    and f2: "t_grid nb ! 99999999 < 1 / 10 ^ 2"
    and f3: "t_grid nb ! Suc 0 - t_grid nb ! 0 = 1 / 10 ^ 10"
    by blast+
  then have f1: "t_grid nb ! 99999999 = 99999999 / 10 ^ 10" by simp
  have p: "projr init_notebook = nb" unfolding nb by simp
  show ?thesis unfolding p using f1 f2 f3 by blast
qed

text \<open>
  The claim as stated gives the window one million samples; it has a hundred times
  as many.
\<close>

theorem time_grid_not_million:
  "length (t_grid (projr init_notebook)) = 100000000 \<and>
   length (t_grid (projr init_notebook)) \<noteq> 1000000"
  by (simp add: init_notebook_eq)

text \<open>
  Claim C7. The initial population vector is the constant \<open>[0, 0.25, 0.75]\<close>, whatever
  the table of rate constants is, and the loop over the models leaves \<open>P0\<close> and the time
  window as they were. Every file the run has written holds the figure that \<open>plot_pops\<close>
  draws, over that time window, of what \<open>odeint\<close> returns from \<open>[0, 0.25, 0.75]\<close> over that
  time window with the matrix of the row of the table the file belongs to. A run without an
  error writes a file for every row.
\<close>

theorem fixed_initial_condition_and_grid:
  "\<exists>nb r nb'. init_notebook = Inr nb \<and> run_notebook env df = Inr (r, nb') \<and>
     P0 nb = [0, 25 / 100, 75 / 100] \<and>
     P0 nb' = P0 nb \<and> t_grid nb' = t_grid nb \<and>
     length (saved nb') \<le> length df \<and>
     (r = None \<longrightarrow> length (saved nb') = length df) \<and>
     list_all2
       (\<lambda>row file. case row of (dye, k_em, k_ISC, k_rISC, k_nr) \<Rightarrow>
          \<exists>K sol. make_K_matrix [k_em, k_ISC, k_rISC, k_nr] = Inr K \<and>
            odeint env dPdt [0, 25 / 100, 75 / 100] (t_grid nb) K = Inr sol \<and>
            plot_pops env (t_grid nb) sol dye [] = Inr [file])
       (take (length (saved nb')) df) (saved nb')"
proof -
  obtain nb where nb: "init_notebook = Inr nb"
    by (simp add: init_notebook_eq)
  from nb have empty: "saved nb = []" and p: "P0 nb = [0, 25 / 100, 75 / 100]"
    by (auto simp: init_notebook_eq)
  obtain r nb' where run: "run_models env df nb = (r, nb')"
    by (cases "run_models env df nb")
  then have res: "run_notebook env df = Inr (r, nb')"
    by (simp add: run_notebook_def nb bind_def)
  from run_models_saved [OF run] empty p
  have "P0 nb' = P0 nb" "t_grid nb' = t_grid nb" "length (saved nb') \<le> length df"
    "r = None \<longrightarrow> length (saved nb') = length df"
    "list_all2
       (\<lambda>row file. case row of (dye, k_em, k_ISC, k_rISC, k_nr) \<Rightarrow>
          \<exists>K sol. make_K_matrix [k_em, k_ISC, k_rISC, k_nr] = Inr K \<and>
            odeint env dPdt [0, 25 / 100, 75 / 100] (t_grid nb) K = Inr sol \<and>
            plot_pops env (t_grid nb) sol dye [] = Inr [file])
       (take (length (saved nb')) df) (saved nb')"
    by auto
  with nb res p show ?thesis by blast
qed

theorem fixed_initial_condition_and_grid_witness:
  "\<exists>nb'. run_notebook
       \<lparr>odeint = \<lambda>f y0 t K. Inr (map (\<lambda>s. y0) t), savefig_raises = \<lambda>path format fig. None\<rparr>
       [(''dye A'', 0, 0, 0, 0), (''my new dye'', 0, 0, 0, 0)] = Inr (None, nb') \<and>
     P0 nb' = [0, 25 / 100, 75 / 100] \<and>
     length (saved nb') = 2 \<and>
     list_all2
       (\<lambda>row file. case row of (dye, k_em, k_ISC, k_rISC, k_nr) \<Rightarrow>
          plot_pops
            \<lparr>odeint = \<lambda>f y0 t K. Inr (map (\<lambda>s. y0) t), savefig_raises = \<lambda>path format fig. None\<rparr>
            (t_grid nb') (map (\<lambda>s. [0, 25 / 100, 75 / 100]) (t_grid nb')) dye [] = Inr [file])
       ([(''dye A'', 0, 0, 0, 0), (''my new dye'', 0, 0, 0, 0)] :: dataframe) (saved nb')"
proof -
  let ?env = "\<lparr>odeint = \<lambda>f y0 t K. Inr (map (\<lambda>s. y0) t),
    savefig_raises = \<lambda>path format fig. None\<rparr> :: libraries"
  let ?df = "[(''dye A'', 0, 0, 0, 0), (''my new dye'', 0, 0, 0, 0)] :: dataframe"
  from fixed_initial_condition_and_grid [of ?env ?df]
  obtain nb r nb' where nb: "init_notebook = Inr nb"
    and run: "run_notebook ?env ?df = Inr (r, nb')"
    and props: "P0 nb = [0, 25 / 100, 75 / 100]" "P0 nb' = P0 nb" "t_grid nb' = t_grid nb"
      "r = None \<longrightarrow> length (saved nb') = length ?df"
    and drawn: "list_all2
       (\<lambda>row file. case row of (dye, k_em, k_ISC, k_rISC, k_nr) \<Rightarrow>
          \<exists>K sol. make_K_matrix [k_em, k_ISC, k_rISC, k_nr] = Inr K \<and>
            odeint ?env dPdt [0, 25 / 100, 75 / 100] (t_grid nb) K = Inr sol \<and>
            plot_pops ?env (t_grid nb) sol dye [] = Inr [file])
       (take (length (saved nb')) ?df) (saved nb')"
    by blast
  from example_run [OF nb] run have r: "r = None" by simp
  with props have len: "length (saved nb') = 2" by simp
  from drawn have "list_all2
       (\<lambda>row file. case row of (dye, k_em, k_ISC, k_rISC, k_nr) \<Rightarrow>
          \<exists>K sol. make_K_matrix [k_em, k_ISC, k_rISC, k_nr] = Inr K \<and>
            odeint ?env dPdt [0, 25 / 100, 75 / 100] (t_grid nb') K = Inr sol \<and>
            plot_pops ?env (t_grid nb') sol dye [] = Inr [file])
       ?df (saved nb')"
    by (simp add: len props(3))
  then have c: "list_all2
       (\<lambda>row file. case row of (dye, k_em, k_ISC, k_rISC, k_nr) \<Rightarrow>
          plot_pops ?env (t_grid nb') (map (\<lambda>s. [0, 25 / 100, 75 / 100]) (t_grid nb')) dye [] =
            Inr [file])
       ?df (saved nb')"
    by (rule list_all2_mono) auto
  from run r have a: "run_notebook ?env ?df = Inr (None, nb')" by simp
  from props have b: "P0 nb' = [0, 25 / 100, 75 / 100]" by simp
  from a b len c show ?thesis by blast
qed




text \<open>
  Claim C9. \<open>dPdt\<close> does not depend on its time argument.
\<close>

theorem dPdt_autonomous:
  "dPdt P t1 K = dPdt P t2 K"
  by (simp add: dPdt_def)

text \<open>
  Claim C10. For non-negative rate constants and a population vector with non-negative
  S1 component, the S0 component of \<open>dPdt\<close> is \<open>(k_em + k_nr) * P_S1\<close> and is not
  negative; along a solution whose S1 population stays non-negative the S0 population never
  decreases.
\<close>

theorem ground_state_sink:
  fixes k_em k_ISC k_rISC k_nr :: real
  assumes rates: "0 \<le> k_em" "0 \<le> k_ISC" "0 \<le> k_rISC" "0 \<le> k_nr"
    and K: "make_K_matrix [k_em, k_ISC, k_rISC, k_nr] = Inr K"
  shows "(0 \<le> pS \<longrightarrow>
       (\<exists>d. dPdt [pG, pS, pT] t K = Inr d \<and> d ! 0 = (k_em + k_nr) * pS \<and> 0 \<le> d ! 0)) \<and>
     (ivp_solution (\<lambda>P t. dPdt P t K) y_init a b y \<and> (\<forall>u. a \<le> u \<and> u \<le> b \<longrightarrow> 0 \<le> y u ! 1) \<and>
      a \<le> s \<and> s \<le> s' \<and> s' \<le> b \<longrightarrow> y s ! 0 \<le> y s' ! 0)"
proof (intro conjI impI)
  assume "0 \<le> pS"
  with rates show "\<exists>d. dPdt [pG, pS, pT] t K = Inr d \<and> d ! 0 = (k_em + k_nr) * pS \<and> 0 \<le> d ! 0"
    unfolding dPdt_make_K [OF K] by simp
next
  assume h: "ivp_solution (\<lambda>P t. dPdt P t K) y_init a b y \<and>
    (\<forall>u. a \<le> u \<and> u \<le> b \<longrightarrow> 0 \<le> y u ! 1) \<and> a \<le> s \<and> s \<le> s' \<and> s' \<le> b"
  then have sol: "ivp_solution (\<lambda>P t. dPdt P t K) y_init a b y"
    and pos: "\<And>u. a \<le> u \<Longrightarrow> u \<le> b \<Longrightarrow> 0 \<le> y u ! 1"
    and s: "a \<le> s" "s \<le> s'" "s' \<le> b"
    by simp_all
  show "y s ! 0 \<le> y s' ! 0"
  proof (rule nondecreasing_on_interval [where g = "\<lambda>u. y u ! 0"
        and D = "\<lambda>u. (k_em + k_nr) * y u ! 1", OF _ _ s])
    show "((\<lambda>u. y u ! 0) has_real_derivative (k_em + k_nr) * y u ! 1) (at u within {a..b})"
      if "a \<le> u" "u \<le> b" for u
      by (rule trajectory_components(2) [OF K sol that])
    show "0 \<le> (k_em + k_nr) * y u ! 1" if "a \<le> u" "u \<le> b" for u
      using rates pos [OF that] by simp
  qed
qed

theorem ground_state_sink_witness:
  "make_K_matrix [1, 0, 0, 1::real] = Inr [[0, 2, 0], [0, - 2, 0], [0, 0, 0]] \<and>
   (\<exists>d. dPdt [0, 1 / 4, 3 / 4] (0::real) [[0, 2, 0], [0, - 2, 0], [0, 0, 0::real]] = Inr d \<and>
      d ! 0 = (1 + 1) * (1 / 4) \<and> 0 \<le> d ! 0) \<and>
   ivp_solution (\<lambda>P t. dPdt P t [[0, 2, 0], [0, - 2, 0], [0, 0, 0]]) [0, 1 / 4, 3 / 4] 0 2
     (\<lambda>u. [1 / 4 * (1 - exp (- 2 * u)), 1 / 4 * exp (- 2 * u), 3 / 4]) \<and>
   [1 / 4 * (1 - exp (- 2 * 0)), 1 / 4 * exp (- 2 * 0), 3 / 4 :: real] ! 0
     \<le> [1 / 4 * (1 - exp (- 2 * 1)), 1 / 4 * exp (- 2 * 1), 3 / 4] ! 0"
proof -
  have K: "make_K_matrix [1, 0, 0, 1::real] = Inr [[0, 2, 0], [0, - 2, 0], [0, 0, 0]]"
    by (simp add: make_K_matrix_four)
  let ?y = "\<lambda>u::real. [1 / 4 * (1 - exp (- 2 * u)), 1 / 4 * exp (- 2 * u), 3 / 4 :: real]"
  have sol: "ivp_solution (\<lambda>P t. dPdt P t [[0, 2, 0], [0, - 2, 0], [0, 0, 0]])
      [0, 1 / 4, 3 / 4] 0 2 ?y"
    using uncoupled_solution [OF K, of 0 "1 / 4" "3 / 4" 0 2] by simp
  have pos: "\<forall>u::real. 0 \<le> u \<and> u \<le> 2 \<longrightarrow> 0 \<le> ?y u ! 1" by simp
  have r: "(0::real) \<le> 1" "(0::real) \<le> 0" by simp_all
  have p: "(0::real) \<le> 1 / 4" by simp
  note inst = ground_state_sink [OF r(1) r(2) r(2) r(1) K, where pG = 0 and pS = "1 / 4"
      and pT = "3 / 4" and t = "0::real" and y_init = "[0, 1 / 4, 3 / 4]" and a = 0 and b = 2
      and s = 0 and s' = 1 and y = ?y]
  from inst p have d: "\<exists>d. dPdt [0, 1 / 4, 3 / 4] (0::real) [[0, 2, 0], [0, - 2, 0], [0, 0, 0::real]] = Inr d \<and>
      d ! 0 = (1 + 1) * (1 / 4) \<and> 0 \<le> d ! 0"
    by blast
  from inst sol pos have m: "?y 0 ! 0 \<le> ?y 1 ! 0"
    by simp
  from K d sol m show ?thesis by blast
qed

end
